theory Spec2Isabelle
  imports Complex_Main "HOL-Library.Word"
begin

unbundle bit_operations_syntax

section \<open>Numbers, helpers and the generator shared by both variants\<close>

text \<open>
  The repository holds two variants of one React component: the kinematic-tween board
  (\<^verbatim>\<open>src/unnamed/part_000\<close>, class \<^verbatim>\<open>Ball\<close>, called variant A below) and the
  gravity-integrated board (\<^verbatim>\<open>src/src/GaltonBoard.jsx\<close>, class \<^verbatim>\<open>QBall\<close>, variant B).
  JavaScript has one number type. Coordinates, velocities, times and probabilities are
  modelled as \<^typ>\<open>real\<close> (doubles without rounding); the counters \<^verbatim>\<open>row\<close>,
  \<^verbatim>\<open>rights\<close>, \<^verbatim>\<open>col\<close> and \<^verbatim>\<open>rows\<close>, which only ever hold integers, as \<^typ>\<open>int\<close>.
\<close>

text \<open>\<^verbatim>\<open>const clamp = (v, lo, hi) => Math.max(lo, Math.min(hi, v));\<close>\<close>

definition clamp :: "'a::linorder \<Rightarrow> 'a \<Rightarrow> 'a \<Rightarrow> 'a" where
  "clamp v lo hi = max lo (min hi v)"

text \<open>\<^verbatim>\<open>Math.round\<close> rounds to the nearest integer, a half upwards.\<close>

definition Math_round :: "real \<Rightarrow> int" where
  "Math_round v = \<lfloor>v + 1 / 2\<rfloor>"

text \<open>
  \<^verbatim>\<open>mulberry32(seed)\<close> returns a closure over the variable \<^verbatim>\<open>a\<close>. The closure's state is
  modelled as a 32-bit word (every call starts with \<^verbatim>\<open>a |= 0\<close>), the closure's body as
  \<open>mulberry32_next\<close>. A falsy seed (\<^verbatim>\<open>0\<close>) is replaced by
  \<^verbatim>\<open>Math.floor(Math.random() * 2 ** 31)\<close>; the value \<^verbatim>\<open>Math.random()\<close> returns is the
  second argument.
\<close>

definition mulberry32 :: "int \<Rightarrow> real \<Rightarrow> 32 word" where
  "mulberry32 seed random = word_of_int (if seed \<noteq> 0 then seed else \<lfloor>random * 2 ^ 31\<rfloor>)"

definition mulberry32_next :: "32 word \<Rightarrow> real \<times> 32 word" where
  "mulberry32_next a0 =
     (let a = a0 + 0x6d2b79f5;
          t = (a XOR drop_bit 15 a) * (1 OR a);
          t = (t + (t XOR drop_bit 7 t) * (61 OR t)) XOR t
      in (real (unat (t XOR drop_bit 14 t)) / 4294967296, a))"

text \<open>
  The quadratic ease-in-out of both variants
  (\<^verbatim>\<open>t < 0.5 ? 2 * t * t : -1 + (4 - 2 * t) * t\<close>).
\<close>

definition easeInOut :: "real \<Rightarrow> real" where
  "easeInOut t = (if t < 0.5 then 2 * t * t else -1 + (4 - 2 * t) * t)"

text \<open>The weighted coin: \<^verbatim>\<open>rng() < pRight ? 1 : -1\<close>.\<close>

definition goRightOf :: "real \<Rightarrow> real \<Rightarrow> int" where
  "goRightOf u pRight = (if u < pRight then 1 else -1)"

subsection \<open>The tally array\<close>

text \<open>
  \<^verbatim>\<open>binTallies\<close> is a JavaScript array of numbers. A slot holds a number, \<^verbatim>\<open>NaN\<close>, or is
  a hole. \<^verbatim>\<open>next[idx] += 1\<close> past the end extends the array with holes and stores
  \<^verbatim>\<open>undefined + 1 = NaN\<close>; at a negative index it sets a property that is no element.
\<close>

datatype cell = Count int | NaN | Hole

fun plus1 :: "cell \<Rightarrow> cell" where
  "plus1 (Count n) = Count (n + 1)"
| "plus1 NaN = NaN"
| "plus1 Hole = NaN"

definition bump :: "int \<Rightarrow> cell list \<Rightarrow> cell list" where
  "bump idx prev =
     (if idx < 0 then prev
      else if nat idx < length prev then prev[nat idx := plus1 (prev ! nat idx)]
      else prev @ replicate (nat idx - length prev) Hole @ [NaN])"

text \<open>\<^verbatim>\<open>Array(binCount).fill(0)\<close>\<close>

definition zeros :: "int \<Rightarrow> cell list" where
  "zeros binCount = replicate (nat binCount) (Count 0)"



section \<open>Lattice geometry\<close>

text \<open>
  \<^verbatim>\<open>pegRows\<close> (the same loop in both variants): row \<open>r\<close> holds \<open>r + 1\<close> pegs \<open>(x, y)\<close>.
\<close>

definition pegRows :: "int \<Rightarrow> real \<Rightarrow> real \<Rightarrow> real \<Rightarrow> (real \<times> real) list list" where
  "pegRows rows spacing boardTop boardCenterX =
     map (\<lambda>r. let y = boardTop + of_int r * spacing;
                   count = r + 1;
                   rowWidth = (of_int count - 1) * spacing;
                   startX = boardCenterX - rowWidth / 2
               in map (\<lambda>i. (startX + of_int i * spacing, y)) [0..count - 1])
         [0..rows - 1]"



section \<open>Variant B: the gravity-integrated board\<close>

text \<open>The constants of \<^verbatim>\<open>GaltonBoard\<close> in \<^verbatim>\<open>src/src/GaltonBoard.jsx\<close>.\<close>

definition spacingB :: real where "spacingB = 28"
definition ballRadiusB :: real where "ballRadiusB = 3.2"
definition widthB :: real where "widthB = 520"
definition heightB :: real where "heightB = 700"
definition boardCenterXB :: real where "boardCenterXB = widthB / 2"
definition topMarginB :: real where "topMarginB = 40"
definition bottomMarginB :: real where "bottomMarginB = 160"
definition boardTopB :: real where "boardTopB = topMarginB + 20"
definition boardBottomB :: real where "boardBottomB = heightB - bottomMarginB"
definition G :: real where "G = 1200"
definition BOUNCE_VY :: real where "BOUNCE_VY = 120"
definition AIR_DAMPING :: real where "AIR_DAMPING = 0.002"

text \<open>
  \<^verbatim>\<open>class QBall\<close>. The field \<^verbatim>\<open>rng\<close> of every ball is the one closure held by
  \<^verbatim>\<open>rngRef.current\<close>, which variant B never replaces; its state lives in the board.
\<close>

record qball =
  qx :: real
  qy :: real
  qvx :: real
  qvy :: real
  qr :: real
  qrows :: int
  qspacing :: real
  qpRight :: real
  qrow :: int
  qrights :: int
  qrowYs :: "real list"
  qdone :: bool
  qtxActive :: bool
  qtxStart :: real
  qtxTarget :: real
  qtxT0 :: real
  qtxDur :: real

text \<open>
  The component's state: the \<^verbatim>\<open>useState\<close> cells \<^verbatim>\<open>rows\<close>, \<^verbatim>\<open>bias\<close> and
  \<^verbatim>\<open>binTallies\<close>, the refs \<^verbatim>\<open>ballsRef\<close> and \<^verbatim>\<open>rngRef\<close>, and the variable \<^verbatim>\<open>last\<close> of the
  animation effect.
\<close>

record boardB =
  rowsB :: int
  biasB :: real
  ballsB :: "qball list"
  rngB :: "32 word"
  binTalliesB :: "cell list"
  lastB :: real

definition pRightB :: "real \<Rightarrow> real" where
  "pRightB bias = clamp (0.5 + bias) 0 1"

definition pegRowsB :: "int \<Rightarrow> (real \<times> real) list list" where
  "pegRowsB rows = pegRows rows spacingB boardTopB boardCenterXB"

text \<open>\<^verbatim>\<open>pegRows.map(r => r[0]?.y ?? boardTop)\<close>\<close>

definition rowYsB :: "int \<Rightarrow> real list" where
  "rowYsB rows = map (\<lambda>r. case r of [] \<Rightarrow> boardTopB | p # _ \<Rightarrow> snd p) (pegRowsB rows)"

text \<open>\<^verbatim>\<open>new QBall({ x0, y0, r, rows, spacing, pRight, rng, rowYs })\<close>\<close>

definition newQBall :: "real \<Rightarrow> real \<Rightarrow> real \<Rightarrow> int \<Rightarrow> real \<Rightarrow> real \<Rightarrow> real list \<Rightarrow> qball" where
  "newQBall x0 y0 r rows spacing pRight rowYs =
     \<lparr> qx = x0, qy = y0, qvx = 0, qvy = 0, qr = r, qrows = rows, qspacing = spacing,
       qpRight = pRight, qrow = 0, qrights = 0, qrowYs = rowYs, qdone = False,
       qtxActive = False, qtxStart = 0, qtxTarget = 0, qtxT0 = 0, qtxDur = 0.14 \<rparr>"

definition launchBallB :: "boardB \<Rightarrow> boardB" where
  "launchBallB s =
     (let x0 = boardCenterXB;
          y0 = boardTopB - spacingB * 0.8
      in s\<lparr>ballsB := ballsB s @
            [newQBall x0 y0 ballRadiusB (rowsB s) spacingB (pRightB (biasB s)) (rowYsB (rowsB s))]\<rparr>)"

definition resetB :: "boardB \<Rightarrow> boardB" where
  "resetB s = s\<lparr>ballsB := [], binTalliesB := zeros (rowsB s + 1)\<rparr>"

text \<open>
  The rows slider calls \<^verbatim>\<open>setRows\<close>. When the value changes, the effects with \<^verbatim>\<open>rows\<close>
  (or \<^verbatim>\<open>binCount\<close>) among their dependencies run: the tallies are refilled, line 124
  empties \<^verbatim>\<open>ballsRef.current\<close>, and the animation effect restarts with
  \<^verbatim>\<open>last = performance.now()\<close> (the argument \<open>clk\<close>).
\<close>

definition setRowsB :: "int \<Rightarrow> real \<Rightarrow> boardB \<Rightarrow> boardB" where
  "setRowsB n clk s =
     (if n = rowsB s then s
      else s\<lparr>rowsB := n, ballsB := [], binTalliesB := zeros (n + 1), lastB := clk\<rparr>)"

definition setBiasB :: "real \<Rightarrow> boardB \<Rightarrow> boardB" where
  "setBiasB b s = s\<lparr>biasB := b\<rparr>"

text \<open>
  Reading \<^verbatim>\<open>b.rowYs[b.row]\<close>: out of range the read gives \<^verbatim>\<open>undefined\<close>, and
  \<^verbatim>\<open>b.y >= undefined\<close> is false.
\<close>

definition reachedRow :: "real \<Rightarrow> real list \<Rightarrow> int \<Rightarrow> bool" where
  "reachedRow y rowYs row = (0 \<le> row \<and> nat row < length rowYs \<and> y \<ge> rowYs ! nat row)"

text \<open>Lines 142-144: gravity and damping.\<close>

definition integrateB :: "real \<Rightarrow> qball \<Rightarrow> qball" where
  "integrateB dt b =
     b\<lparr>qvy := (qvy b + G * dt) * (1 - AIR_DAMPING * 0.5),
       qvx := qvx b * (1 - AIR_DAMPING)\<rparr>"

text \<open>Lines 146-153: the horizontal tween, or free horizontal motion.\<close>

definition tweenB :: "real \<Rightarrow> real \<Rightarrow> qball \<Rightarrow> qball" where
  "tweenB dt now b =
     (if qtxActive b then
        (let u = clamp ((now - qtxT0 b) / 1000 / qtxDur b) 0 1;
             k = easeInOut u
         in b\<lparr>qx := qtxStart b + (qtxTarget b - qtxStart b) * k,
              qtxActive := \<not> (u \<ge> 1)\<rparr>)
      else b\<lparr>qx := qx b + qvx b * dt\<rparr>)"

text \<open>Line 155.\<close>

definition fallB :: "real \<Rightarrow> qball \<Rightarrow> qball" where
  "fallB dt b = b\<lparr>qy := qy b + qvy b * dt\<rparr>"

text \<open>
  Lines 157-166: the row crossing. \<open>rng\<close> is the body of the generator closure, \<open>g\<close> its
  state; \<open>rows\<close> is the component's \<^verbatim>\<open>rows\<close>, closed over by \<^verbatim>\<open>step\<close>.
\<close>

definition crossRowB :: "(32 word \<Rightarrow> real \<times> 32 word) \<Rightarrow> int \<Rightarrow> real \<Rightarrow> qball \<Rightarrow> 32 word
    \<Rightarrow> qball \<times> 32 word" where
  "crossRowB rng rows now b g =
     (if qrow b < qrows b \<and> reachedRow (qy b) (qrowYs b) (qrow b) then
        (let (u, g') = rng g;
             goRight = goRightOf u (qpRight b);
             rights = (if goRight > 0 then qrights b + 1 else qrights b);
             leftBound = boardCenterXB - (of_int rows * spacingB) / 2;
             rightBound = boardCenterXB + (of_int rows * spacingB) / 2;
             targetX = clamp (qx b + of_int goRight * (qspacing b / 2))
                         (leftBound + qr b) (rightBound - qr b)
         in (b\<lparr>qrights := rights, qvy := - \<bar>BOUNCE_VY\<bar>,
               qtxStart := qx b, qtxTarget := targetX, qtxT0 := now, qtxDur := 0.14,
               qtxActive := True, qvx := 0, qrow := qrow b + 1\<rparr>, g'))
      else (b, g))"

text \<open>Lines 168-171: the side walls.\<close>

definition wallsB :: "int \<Rightarrow> qball \<Rightarrow> qball" where
  "wallsB rows b =
     (let leftWall = boardCenterXB - (of_int rows * spacingB) / 2 - spacingB / 2 + qr b;
          rightWall = boardCenterXB + (of_int rows * spacingB) / 2 + spacingB / 2 - qr b;
          b = (if qx b < leftWall then b\<lparr>qx := leftWall, qvx := \<bar>qvx b\<bar> * 0.6\<rparr> else b)
      in (if qx b > rightWall then b\<lparr>qx := rightWall, qvx := - \<bar>qvx b\<bar> * 0.6\<rparr> else b))"

text \<open>Line 174: the bin a landing ball is tallied in.\<close>

definition binIndexB :: "int \<Rightarrow> qball \<Rightarrow> int" where
  "binIndexB rows b = clamp (qrights b) 0 rows"

text \<open>Lines 173-177: completion.\<close>

definition landB :: "int \<Rightarrow> qball \<Rightarrow> cell list \<Rightarrow> qball \<times> cell list" where
  "landB rows b t =
     (if qy b - qr b \<ge> boardBottomB then (b\<lparr>qdone := True\<rparr>, bump (binIndexB rows b) t)
      else (b, t))"

text \<open>The body of \<^verbatim>\<open>ballsRef.current.forEach((b) => ...)\<close> in \<^verbatim>\<open>step\<close>.\<close>

definition stepBall :: "(32 word \<Rightarrow> real \<times> 32 word) \<Rightarrow> int \<Rightarrow> real \<Rightarrow> real \<Rightarrow> qball
    \<Rightarrow> 32 word \<Rightarrow> cell list \<Rightarrow> qball \<times> 32 word \<times> cell list" where
  "stepBall rng rows dt now b g t =
     (if qdone b then (b, g, t)
      else
        (let b = fallB dt (tweenB dt now (integrateB dt b));
             (b, g) = crossRowB rng rows now b g;
             (b, t) = landB rows (wallsB rows b) t
         in (b, g, t)))"

fun stepBalls :: "(32 word \<Rightarrow> real \<times> 32 word) \<Rightarrow> int \<Rightarrow> real \<Rightarrow> real \<Rightarrow> qball list
    \<Rightarrow> 32 word \<Rightarrow> cell list \<Rightarrow> qball list \<times> 32 word \<times> cell list" where
  "stepBalls rng rows dt now [] g t = ([], g, t)"
| "stepBalls rng rows dt now (b # bs) g t =
     (let (b', g', t') = stepBall rng rows dt now b g t;
          (bs', g'', t'') = stepBalls rng rows dt now bs g' t'
      in (b' # bs', g'', t''))"

text \<open>
  \<^verbatim>\<open>step(now)\<close>, the animation-frame callback, without the drawing:
  the time step, the loop over the balls, the removal of the finished ones.
\<close>

definition stepB :: "(32 word \<Rightarrow> real \<times> 32 word) \<Rightarrow> real \<Rightarrow> boardB \<Rightarrow> boardB" where
  "stepB rng now s =
     (let dt = min 0.033 ((now - lastB s) / 1000);
          (bs, g, t) = stepBalls rng (rowsB s) dt now (ballsB s) (rngB s) (binTalliesB s)
      in s\<lparr>lastB := now, ballsB := filter (\<lambda>b. \<not> qdone b) bs, rngB := g,
           binTalliesB := t\<rparr>)"

text \<open>
  The balls a call \<^verbatim>\<open>step(now)\<close> marks done, hence tallies and removes, as they are
  at that moment.
\<close>

definition landedB :: "(32 word \<Rightarrow> real \<times> 32 word) \<Rightarrow> real \<Rightarrow> boardB \<Rightarrow> qball list" where
  "landedB rng now s =
     (let dt = min 0.033 ((now - lastB s) / 1000)
      in filter qdone
           (fst (stepBalls rng (rowsB s) dt now (ballsB s) (rngB s) (binTalliesB s))))"

text \<open>
  What can happen to the mounted component: a ball is launched (the button or the
  interval timer), a frame is drawn, a control is used.
\<close>

datatype eventB = LaunchB | StepB real | ResetB | SetRowsB int real | SetBiasB real

fun applyB :: "(32 word \<Rightarrow> real \<times> 32 word) \<Rightarrow> boardB \<Rightarrow> eventB \<Rightarrow> boardB" where
  "applyB rng s LaunchB = launchBallB s"
| "applyB rng s (StepB now) = stepB rng now s"
| "applyB rng s ResetB = resetB s"
| "applyB rng s (SetRowsB n clk) = setRowsB n clk s"
| "applyB rng s (SetBiasB b) = setBiasB b s"

definition runB :: "(32 word \<Rightarrow> real \<times> 32 word) \<Rightarrow> boardB \<Rightarrow> eventB list \<Rightarrow> boardB" where
  "runB rng s evs = foldl (applyB rng) s evs"

text \<open>
  The component as mounted: 12 rows, no bias, the generator seeded with 12345;
  \<open>clk\<close> is \<^verbatim>\<open>performance.now()\<close> when the animation effect starts.
\<close>

definition initB :: "real \<Rightarrow> boardB" where
  "initB clk = \<lparr> rowsB = 12, biasB = 0, ballsB = [], rngB = mulberry32 12345 0,
                binTalliesB = zeros (12 + 1), lastB = clk \<rparr>"

section \<open>Variant A: the kinematic-tween board\<close>

text \<open>
  \<^verbatim>\<open>class Ball\<close> of \<^verbatim>\<open>src/unnamed/part_000\<close>. The field \<^verbatim>\<open>rng\<close> holds a reference to a
  generator closure. Variant A replaces \<^verbatim>\<open>rngRef.current\<close> by a new closure when the seed
  changes, while balls in flight keep the closure they were built with; so the closures'
  states live in a store \<open>heapA\<close>, and a ball holds an address.
  \<^verbatim>\<open>performance.now()\<close>, read in the constructor and in \<^verbatim>\<open>planNextTarget\<close>, is an input.
\<close>

record ball =
  b_x :: real
  b_y :: real
  b_col :: int
  b_row :: int
  b_rows :: int
  b_spacing :: real
  b_stepMs :: real
  b_bias :: real
  b_rng :: nat
  b_done :: bool
  b_t0 :: real
  b_tx :: real
  b_ty :: real

record boardA =
  rowsA :: int
  biasA :: real
  stepMsA :: real
  scaleA :: real
  seedA :: int
  ballsA :: "ball list"
  heapA :: "nat \<Rightarrow> 32 word"
  rngRefA :: nat
  binTalliesA :: "cell list"

text \<open>The constructor; \<open>clk\<close> is the value of \<^verbatim>\<open>performance.now()\<close>.\<close>

definition newBall :: "real \<Rightarrow> real \<Rightarrow> int \<Rightarrow> int \<Rightarrow> real \<Rightarrow> real \<Rightarrow> real \<Rightarrow> nat \<Rightarrow> real \<Rightarrow> ball" where
  "newBall x0 y0 col0 rows spacing stepMs bias rng clk =
     \<lparr> b_x = x0, b_y = y0, b_col = col0, b_row = 0, b_rows = rows, b_spacing = spacing,
       b_stepMs = max 40 stepMs, b_bias = bias, b_rng = rng, b_done = False, b_t0 = clk,
       b_tx = x0, b_ty = y0 + spacing \<rparr>"

text \<open>
  \<^verbatim>\<open>planNextTarget(boardCenterX)\<close>. \<open>rng\<close> is the body of the generator closures,
  \<open>heap\<close> holds their states.
\<close>

definition planNextTarget :: "(32 word \<Rightarrow> real \<times> 32 word) \<Rightarrow> real \<Rightarrow> real \<Rightarrow> ball
    \<Rightarrow> (nat \<Rightarrow> 32 word) \<Rightarrow> ball \<times> (nat \<Rightarrow> 32 word)" where
  "planNextTarget rng boardCenterX clk b heap =
     (if b_row b \<ge> b_rows b then (b\<lparr>b_done := True\<rparr>, heap)
      else
        (let pRight = clamp (0.5 + b_bias b) 0 1;
             (u, g') = rng (heap (b_rng b));
             goRight = goRightOf u pRight;
             tx = b_tx b + of_int goRight * (b_spacing b / 2);
             maxOffset = (of_int (b_rows b) * b_spacing b) / 2
         in (b\<lparr>b_col := b_col b + goRight, b_row := b_row b + 1, b_t0 := clk,
               b_ty := b_ty b + b_spacing b,
               b_tx := clamp tx (boardCenterX - maxOffset) (boardCenterX + maxOffset)\<rparr>,
             heap(b_rng b := g'))))"

text \<open>\<^verbatim>\<open>update(now)\<close>\<close>

definition update :: "real \<Rightarrow> ball \<Rightarrow> ball" where
  "update now b =
     (if b_done b then b
      else
        (let u = clamp ((now - b_t0 b) / b_stepMs b) 0 1;
             ease = (if u < 0.5 then 2 * u * u else -1 + (4 - 2 * u) * u);
             b' = b\<lparr>b_x := b_x b + (b_tx b - b_x b) * ease, b_y := b_y b + (b_ty b - b_y b) * ease\<rparr>
         in (if u \<ge> 1 \<and> b_row b \<ge> b_rows b then b'\<lparr>b_done := True\<rparr> else b')))"

text \<open>
  The first loop of \<^verbatim>\<open>tick(now)\<close>; \<open>clk i\<close> is what \<^verbatim>\<open>performance.now()\<close> returns while
  the ball at position \<open>i\<close> is handled.
\<close>

definition advanceBall :: "(32 word \<Rightarrow> real \<times> 32 word) \<Rightarrow> real \<Rightarrow> real \<Rightarrow> real \<Rightarrow> ball
    \<Rightarrow> (nat \<Rightarrow> 32 word) \<Rightarrow> ball \<times> (nat \<Rightarrow> 32 word)" where
  "advanceBall rng boardCenterX now clk b heap =
     (let (b, heap) = (if \<not> b_done b \<and> (now - b_t0 b) / b_stepMs b \<ge> 1
                       then planNextTarget rng boardCenterX clk b heap else (b, heap))
      in (update now b, heap))"

fun advanceBalls :: "(32 word \<Rightarrow> real \<times> 32 word) \<Rightarrow> real \<Rightarrow> real \<Rightarrow> (nat \<Rightarrow> real) \<Rightarrow> nat
    \<Rightarrow> ball list \<Rightarrow> (nat \<Rightarrow> 32 word) \<Rightarrow> ball list \<times> (nat \<Rightarrow> 32 word)" where
  "advanceBalls rng boardCenterX now clk i [] heap = ([], heap)"
| "advanceBalls rng boardCenterX now clk i (b # bs) heap =
     (let (b', heap') = advanceBall rng boardCenterX now (clk i) b heap;
          (bs', heap'') = advanceBalls rng boardCenterX now clk (Suc i) bs heap'
      in (b' # bs', heap''))"

text \<open>
  Line 322: the bin of a finished ball. \<open>col\<close> and \<open>rows\<close> hold integers, so the index is
  a number and the guard \<^verbatim>\<open>!Number.isNaN(idx)\<close> always passes.
\<close>

definition binIndexA :: "int \<Rightarrow> ball \<Rightarrow> int" where
  "binIndexA rows b = clamp (Math_round ((of_int (b_col b) + of_int rows) / 2)) 0 rows"

text \<open>The second loop of \<^verbatim>\<open>tick\<close>: tally the finished balls, keep the others.\<close>

fun collect :: "int \<Rightarrow> ball list \<Rightarrow> cell list \<Rightarrow> ball list \<times> cell list" where
  "collect rows [] t = ([], t)"
| "collect rows (b # bs) t =
     (if b_done b then collect rows bs (bump (binIndexA rows b) t)
      else (let (stillFalling, t') = collect rows bs t in (b # stillFalling, t')))"

definition widthA :: "real \<Rightarrow> real" where
  "widthA scale = of_int (Math_round (520 * scale))"

definition spacingA :: "real \<Rightarrow> real" where
  "spacingA scale = 28 * scale"

definition boardTopA :: "real \<Rightarrow> real" where
  "boardTopA scale = 40 * scale + 20 * scale"

text \<open>\<^verbatim>\<open>tick(now)\<close> without the drawing.\<close>

definition tickA :: "(32 word \<Rightarrow> real \<times> 32 word) \<Rightarrow> real \<Rightarrow> (nat \<Rightarrow> real) \<Rightarrow> boardA \<Rightarrow> boardA" where
  "tickA rng now clk s =
     (let (bs, heap) = advanceBalls rng (widthA (scaleA s) / 2) now clk 0 (ballsA s) (heapA s);
          (stillFalling, t) = collect (rowsA s) bs (binTalliesA s)
      in s\<lparr>ballsA := stillFalling, heapA := heap, binTalliesA := t\<rparr>)"

text \<open>The balls a call \<^verbatim>\<open>tick(now)\<close> finds done, hence tallies and removes.\<close>

definition landedA :: "(32 word \<Rightarrow> real \<times> 32 word) \<Rightarrow> real \<Rightarrow> (nat \<Rightarrow> real) \<Rightarrow> boardA \<Rightarrow> ball list" where
  "landedA rng now clk s =
     filter b_done
       (fst (advanceBalls rng (widthA (scaleA s) / 2) now clk 0 (ballsA s) (heapA s)))"

definition launchBallA :: "real \<Rightarrow> boardA \<Rightarrow> boardA" where
  "launchBallA clk s =
     (let x0 = widthA (scaleA s) / 2;
          y0 = boardTopA (scaleA s) - spacingA (scaleA s) * 0.6;
          col0 = 0
      in s\<lparr>ballsA := ballsA s @
            [newBall x0 y0 col0 (rowsA s) (spacingA (scaleA s)) (stepMsA s) (biasA s)
               (rngRefA s) clk]\<rparr>)"

definition resetA :: "boardA \<Rightarrow> boardA" where
  "resetA s = s\<lparr>ballsA := [], binTalliesA := zeros (rowsA s + 1)\<rparr>"

text \<open>
  The rows slider. The only effect that depends on the row count is the one on
  \<^verbatim>\<open>binCount\<close> (line 217), which refills the tallies; nothing touches \<^verbatim>\<open>ballsRef\<close>.
\<close>

definition setRowsA :: "int \<Rightarrow> boardA \<Rightarrow> boardA" where
  "setRowsA n s = (if n = rowsA s then s else s\<lparr>rowsA := n, binTalliesA := zeros (n + 1)\<rparr>)"

text \<open>
  The seed field or the Randomize button. When the seed changes, the effect of lines
  178-180 stores a new closure \<^verbatim>\<open>mulberry32(seed)\<close> in \<^verbatim>\<open>rngRef.current\<close>; \<open>random\<close> is
  what \<^verbatim>\<open>Math.random()\<close> returns should \<^verbatim>\<open>mulberry32\<close> call it.
\<close>

definition setSeedA :: "int \<Rightarrow> real \<Rightarrow> boardA \<Rightarrow> boardA" where
  "setSeedA seed random s =
     (if seed = seedA s then s
      else s\<lparr>seedA := seed, rngRefA := Suc (rngRefA s),
             heapA := (heapA s)(Suc (rngRefA s) := mulberry32 seed random)\<rparr>)"

datatype eventA =
    LaunchA real
  | TickA real "nat \<Rightarrow> real"
  | ResetA
  | SetRowsA int
  | SetSeedA int real
  | SetBiasA real
  | SetStepMsA real
  | SetScaleA real

fun applyA :: "(32 word \<Rightarrow> real \<times> 32 word) \<Rightarrow> boardA \<Rightarrow> eventA \<Rightarrow> boardA" where
  "applyA rng s (LaunchA clk) = launchBallA clk s"
| "applyA rng s (TickA now clk) = tickA rng now clk s"
| "applyA rng s ResetA = resetA s"
| "applyA rng s (SetRowsA n) = setRowsA n s"
| "applyA rng s (SetSeedA seed random) = setSeedA seed random s"
| "applyA rng s (SetBiasA b) = s\<lparr>biasA := b\<rparr>"
| "applyA rng s (SetStepMsA ms) = s\<lparr>stepMsA := ms\<rparr>"
| "applyA rng s (SetScaleA sc) = s\<lparr>scaleA := sc\<rparr>"

definition runA :: "(32 word \<Rightarrow> real \<times> 32 word) \<Rightarrow> boardA \<Rightarrow> eventA list \<Rightarrow> boardA" where
  "runA rng s evs = foldl (applyA rng) s evs"

text \<open>The component as mounted: 12 rows, no bias, 140 ms per row, seed 12345.\<close>

definition initA :: boardA where
  "initA = \<lparr> rowsA = 12, biasA = 0, stepMsA = 140, scaleA = 1, seedA = 12345, ballsA = [],
             heapA = (\<lambda>_. mulberry32 12345 0), rngRefA = 0, binTalliesA = zeros (12 + 1) \<rparr>"

section \<open>Runs, observations and invariants\<close>

text \<open>
  \<open>n\<close> animation frames, \<open>d\<close> milliseconds apart, after time \<open>t\<close>. In variant A
  \<^verbatim>\<open>performance.now()\<close> returns the frame's own time stamp during the frame.
\<close>

fun framesB :: "real \<Rightarrow> real \<Rightarrow> nat \<Rightarrow> eventB list" where
  "framesB t d 0 = []"
| "framesB t d (Suc n) = StepB (t + d) # framesB (t + d) d n"

fun framesA :: "real \<Rightarrow> real \<Rightarrow> nat \<Rightarrow> eventA list" where
  "framesA t d 0 = []"
| "framesA t d (Suc n) = TickA (t + d) (\<lambda>_. t + d) # framesA (t + d) d n"

text \<open>A generator forced to return the same value at every call.\<close>

definition always :: "real \<Rightarrow> 32 word \<Rightarrow> real \<times> 32 word" where
  "always v g = (v, g)"

text \<open>
  The values the controls can send: the sliders' \<^verbatim>\<open>min\<close> and \<^verbatim>\<open>max\<close> attributes
  (rows 5 to 20, bias -0.25 to 0.25, step 60 to 500 ms, scale 0.7 to 1.6); the seed
  field accepts any integer.
\<close>

fun validEventB :: "eventB \<Rightarrow> bool" where
  "validEventB (SetRowsB n clk) = (5 \<le> n \<and> n \<le> 20)"
| "validEventB (SetBiasB b) = (- 0.25 \<le> b \<and> b \<le> 0.25)"
| "validEventB _ = True"

fun validEventA :: "eventA \<Rightarrow> bool" where
  "validEventA (SetRowsA n) = (5 \<le> n \<and> n \<le> 20)"
| "validEventA (SetBiasA b) = (- 0.25 \<le> b \<and> b \<le> 0.25)"
| "validEventA (SetStepMsA ms) = (60 \<le> ms \<and> ms \<le> 500)"
| "validEventA (SetScaleA sc) = (0.7 \<le> sc \<and> sc \<le> 1.6)"
| "validEventA _ = True"

text \<open>Drops and frames only, and the number of drops among them.\<close>

fun dropOrStepB :: "eventB \<Rightarrow> bool" where
  "dropOrStepB LaunchB = True"
| "dropOrStepB (StepB now) = True"
| "dropOrStepB _ = False"

fun dropOrTickA :: "eventA \<Rightarrow> bool" where
  "dropOrTickA (LaunchA clk) = True"
| "dropOrTickA (TickA now clk) = True"
| "dropOrTickA _ = False"






text \<open>The invariant of a variant B ball's counters.\<close>

definition countersOkB :: "qball \<Rightarrow> bool" where
  "countersOkB b = (0 \<le> qrights b \<and> qrights b \<le> qrow b \<and> qrow b \<le> qrows b)"

text \<open>
  Variant A keeps no count of right deflections. It keeps \<^verbatim>\<open>col\<close>, which goes up by one
  at a right and down by one at a left deflection; after \<^verbatim>\<open>row\<close> deflections of which
  \<open>k\<close> went right, \<^verbatim>\<open>col\<close> is \<open>2 * k - row\<close>. The count is read back from that.
\<close>

definition rightCountA :: "ball \<Rightarrow> int" where
  "rightCountA b = (b_col b + b_row b) div 2"

definition countersOkA :: "ball \<Rightarrow> bool" where
  "countersOkA b =
     (0 \<le> rightCountA b \<and> rightCountA b \<le> b_row b \<and> b_row b \<le> b_rows b \<and>
      b_col b = 2 * rightCountA b - b_row b \<and> (b_done b \<longrightarrow> b_row b = b_rows b))"

text \<open>The number a tally slot holds (0 for a slot that holds none).\<close>

fun cellValue :: "cell \<Rightarrow> int" where
  "cellValue (Count n) = n"
| "cellValue _ = 0"

text \<open>A row crossing, repeated: a ball below several rows crosses one per frame.\<close>

fun crossRowsB :: "nat \<Rightarrow> (32 word \<Rightarrow> real \<times> 32 word) \<Rightarrow> int \<Rightarrow> real \<Rightarrow> qball \<Rightarrow> 32 word
    \<Rightarrow> qball \<times> 32 word" where
  "crossRowsB 0 rng rows now b g = (b, g)"
| "crossRowsB (Suc n) rng rows now b g =
     (let (b', g') = crossRowB rng rows now b g in crossRowsB n rng rows now b' g')"

fun planTargets :: "nat \<Rightarrow> (32 word \<Rightarrow> real \<times> 32 word) \<Rightarrow> real \<Rightarrow> real \<Rightarrow> ball
    \<Rightarrow> (nat \<Rightarrow> 32 word) \<Rightarrow> ball \<times> (nat \<Rightarrow> 32 word)" where
  "planTargets 0 rng boardCenterX clk b heap = (b, heap)"
| "planTargets (Suc n) rng boardCenterX clk b heap =
     (let (b', heap') = planNextTarget rng boardCenterX clk b heap
      in planTargets n rng boardCenterX clk b' heap')"

text \<open>A variant B ball whose counters are sound and that was built for \<open>rows\<close> rows.\<close>

definition okB :: "int \<Rightarrow> qball \<Rightarrow> bool" where
  "okB rows b = (countersOkB b \<and> qrows b = rows)"


definition tallySum :: "cell list \<Rightarrow> int" where
  "tallySum t = sum_list (map cellValue t)"



text \<open>
  A variant A ball and a variant B ball that have met the same deflections: same row,
  same generator state, same probability, and \<^verbatim>\<open>col\<close> is twice \<^verbatim>\<open>rights\<close> minus the
  row. The variant B ball lies below all its rows, so that each one counts as reached.
\<close>

definition coupled :: "ball \<Rightarrow> (nat \<Rightarrow> 32 word) \<Rightarrow> qball \<Rightarrow> 32 word \<Rightarrow> bool" where
  "coupled a heap q g =
     (b_row a = qrow q \<and> b_rows a = qrows q \<and> b_col a = 2 * qrights q - qrow q \<and>
      heap (b_rng a) = g \<and> qpRight q = clamp (0.5 + b_bias a) 0 1 \<and>
      0 \<le> qrights q \<and> qrights q \<le> qrow q \<and> qrow q \<le> qrows q \<and>
      int (length (qrowYs q)) = qrows q \<and> (\<forall>y\<in>set (qrowYs q). y \<le> qy q))"

text \<open>
  A variant B board with one ball in flight, for writing down the states of a run:
  the ball as launched on a board of \<open>rows\<close> rows, with the fields that change in
  flight set, and the board with empty tallies.
\<close>

definition ballAt :: "int \<Rightarrow> real \<Rightarrow> real \<Rightarrow> real \<Rightarrow> real \<Rightarrow> int \<Rightarrow> int \<Rightarrow> bool \<Rightarrow> real \<Rightarrow> real
    \<Rightarrow> real \<Rightarrow> qball" where
  "ballAt rows pRight x y vy row rights txActive txStart txTarget txT0 =
     (newQBall boardCenterXB (boardTopB - spacingB * 0.8) ballRadiusB rows spacingB pRight
        (rowYsB rows))
       \<lparr>qx := x, qy := y, qvy := vy, qrow := row, qrights := rights, qtxActive := txActive,
        qtxStart := txStart, qtxTarget := txTarget, qtxT0 := txT0\<rparr>"

definition oneBall :: "int \<Rightarrow> real \<Rightarrow> qball \<Rightarrow> 32 word \<Rightarrow> real \<Rightarrow> boardB" where
  "oneBall rows bias b g last_frame =
     \<lparr> rowsB = rows, biasB = bias, ballsB = [b], rngB = g, binTalliesB = zeros (rows + 1),
       lastB = last_frame \<rparr>"

text \<open>
  The balls of a 5-row board under a forced generator. Forced to 0 (below every
  probability above 0), every crossed row is a right deflection: \<^verbatim>\<open>rights\<close> equals
  \<^verbatim>\<open>row\<close> in variant B, \<^verbatim>\<open>col\<close> equals \<^verbatim>\<open>row\<close> in variant A. Forced to 1 (below no
  probability), every crossed row is a left deflection.
\<close>

definition allRightB :: "qball \<Rightarrow> bool" where
  "allRightB b = (okB 5 b \<and> qrights b = qrow b \<and> 0 < qpRight b)"

definition allLeftB :: "qball \<Rightarrow> bool" where
  "allLeftB b = (okB 5 b \<and> qrights b = 0 \<and> qpRight b \<le> 1)"

definition allRightA :: "ball \<Rightarrow> bool" where
  "allRightA a = (countersOkA a \<and> b_rows a = 5 \<and> b_col a = b_row a \<and>
     - 0.25 \<le> b_bias a \<and> b_bias a \<le> 0.25)"

definition allLeftA :: "ball \<Rightarrow> bool" where
  "allLeftA a = (countersOkA a \<and> b_rows a = 5 \<and> b_col a = - b_row a \<and>
     - 0.25 \<le> b_bias a \<and> b_bias a \<le> 0.25)"

text \<open>
  Frames in time order: \<^verbatim>\<open>requestAnimationFrame\<close> passes timestamps that do not decrease,
  starting from the \<^verbatim>\<open>last\<close> the animation effect read.
\<close>

fun inOrderB :: "real \<Rightarrow> eventB list \<Rightarrow> bool" where
  "inOrderB t [] = True"
| "inOrderB t (StepB now # evs) = (t \<le> now \<and> inOrderB now evs)"
| "inOrderB t (e # evs) = inOrderB t evs"

text \<open>
  A variant B ball in flight on a board of \<open>R\<close> rows: not done, above the landing line,
  its kinetic energy bounded by the height fallen since the bounce at the last row (a
  bounce sets \<^verbatim>\<open>vy = BOUNCE_VY = -120\<close>, one row spacing above is \<open>32 + 28 * row\<close>), and
  either still above its next row or just bounced.
\<close>

definition flightOkB :: "int \<Rightarrow> qball \<Rightarrow> bool" where
  "flightOkB R b =
     (qrows b = R \<and> qr b = ballRadiusB \<and> qrowYs b = rowYsB R \<and> 0 \<le> qrow b \<and> qrow b \<le> R \<and>
      \<not> qdone b \<and> qy b - qr b < boardBottomB \<and>
      (qvy b)\<^sup>2 \<le> 14400 + 2400 * (qy b - (32 + 28 * of_int (qrow b))) \<and>
      (qrow b < R \<longrightarrow> qy b < 60 + 28 * of_int (qrow b) \<or> qvy b = - 120))"

section \<open>The lattice geometry\<close>














section \<open>The counters of a ball\<close>


lemma clamp_id: "lo \<le> v \<Longrightarrow> v \<le> hi \<Longrightarrow> clamp v lo hi = v"
  by (auto simp: clamp_def)

text \<open>The steps of a frame that move the ball leave its counters alone.\<close>

lemma integrateB_counters [simp]:
  "qrow (integrateB dt b) = qrow b" "qrights (integrateB dt b) = qrights b"
  "qrows (integrateB dt b) = qrows b" "qpRight (integrateB dt b) = qpRight b"
  "qdone (integrateB dt b) = qdone b"
  by (simp_all add: integrateB_def)

lemma tweenB_counters [simp]:
  "qrow (tweenB dt now b) = qrow b" "qrights (tweenB dt now b) = qrights b"
  "qrows (tweenB dt now b) = qrows b" "qpRight (tweenB dt now b) = qpRight b"
  "qdone (tweenB dt now b) = qdone b"
  by (simp_all add: tweenB_def Let_def)

lemma fallB_counters [simp]:
  "qrow (fallB dt b) = qrow b" "qrights (fallB dt b) = qrights b"
  "qrows (fallB dt b) = qrows b" "qpRight (fallB dt b) = qpRight b"
  "qdone (fallB dt b) = qdone b"
  by (simp_all add: fallB_def)

lemma wallsB_counters [simp]:
  "qrow (wallsB rows b) = qrow b" "qrights (wallsB rows b) = qrights b"
  "qrows (wallsB rows b) = qrows b" "qpRight (wallsB rows b) = qpRight b"
  "qdone (wallsB rows b) = qdone b"
  by (simp_all add: wallsB_def Let_def)

lemma landB_counters [simp]:
  "qrow (fst (landB rows b t)) = qrow b" "qrights (fst (landB rows b t)) = qrights b"
  "qrows (fst (landB rows b t)) = qrows b" "qpRight (fst (landB rows b t)) = qpRight b"
  by (simp_all add: landB_def)

text \<open>What a row crossing does to the counters.\<close>

lemma crossRowB_counters:
  "qrows (fst (crossRowB rng rows now b g)) = qrows b \<and>
   qpRight (fst (crossRowB rng rows now b g)) = qpRight b \<and>
   qdone (fst (crossRowB rng rows now b g)) = qdone b \<and>
   (if qrow b < qrows b \<and> reachedRow (qy b) (qrowYs b) (qrow b)
    then qrow (fst (crossRowB rng rows now b g)) = qrow b + 1 \<and>
         qrights (fst (crossRowB rng rows now b g)) =
           qrights b + (if fst (rng g) < qpRight b then 1 else 0)
    else qrow (fst (crossRowB rng rows now b g)) = qrow b \<and>
         qrights (fst (crossRowB rng rows now b g)) = qrights b)"
  by (simp add: crossRowB_def Let_def goRightOf_def split_beta)

lemma crossRowB_ok: "countersOkB b \<Longrightarrow> countersOkB (fst (crossRowB rng rows now b g))"
  using crossRowB_counters [of rng rows now b g]
  by (auto simp: countersOkB_def split: if_splits)

lemma stepBall_fst:
  "fst (stepBall rng rows dt now b g t) =
     (if qdone b then b
      else fst (landB rows (wallsB rows
             (fst (crossRowB rng rows now (fallB dt (tweenB dt now (integrateB dt b))) g))) t))"
  by (simp add: stepBall_def Let_def split_beta)

lemma stepBall_ok: "countersOkB b \<Longrightarrow> countersOkB (fst (stepBall rng rows dt now b g t))"
proof -
  assume ok: "countersOkB b"
  let ?m = "fallB dt (tweenB dt now (integrateB dt b))"
  have "countersOkB ?m" using ok by (simp add: countersOkB_def)
  then have "countersOkB (fst (crossRowB rng rows now ?m g))" by (rule crossRowB_ok)
  then show ?thesis using ok by (simp add: stepBall_fst countersOkB_def)
qed

lemma stepBall_rows [simp]: "qrows (fst (stepBall rng rows dt now b g t)) = qrows b"
  by (simp add: stepBall_fst crossRowB_counters)

lemma stepBall_pRight [simp]: "qpRight (fst (stepBall rng rows dt now b g t)) = qpRight b"
  by (simp add: stepBall_fst crossRowB_counters)

text \<open>Within a frame a ball's row goes up by at most one, and its count of rights only
  together with the row.\<close>

lemma stepBall_monotone:
  "qrow b \<le> qrow (fst (stepBall rng rows dt now b g t)) \<and>
   qrow (fst (stepBall rng rows dt now b g t)) \<le> qrow b + 1 \<and>
   qrights b \<le> qrights (fst (stepBall rng rows dt now b g t)) \<and>
   qrights (fst (stepBall rng rows dt now b g t)) - qrights b
     \<le> qrow (fst (stepBall rng rows dt now b g t)) - qrow b"
  using crossRowB_counters [of rng rows now "fallB dt (tweenB dt now (integrateB dt b))" g]
  by (auto simp: stepBall_fst split: if_splits)

lemma stepBalls_length [simp]: "length (fst (stepBalls rng rows dt now bs g t)) = length bs"
  by (induction bs arbitrary: g t) (simp_all add: split_beta Let_def)

lemma stepBalls_all:
  assumes "\<And>b g t. P b \<Longrightarrow> Q (fst (stepBall rng rows dt now b g t))"
  shows "\<forall>b\<in>set bs. P b \<Longrightarrow> \<forall>b\<in>set (fst (stepBalls rng rows dt now bs g t)). Q b"
  by (induction bs arbitrary: g t) (auto simp: split_beta Let_def assms)

lemma stepBall_okB: "okB rows b \<Longrightarrow> okB rows (fst (stepBall rng r dt now b g t))"
  by (simp add: okB_def stepBall_ok)

lemma stepB_okB:
  assumes "\<forall>b\<in>set (ballsB s). okB (rowsB s) b"
  shows "\<forall>b\<in>set (ballsB (stepB rng now s)). okB (rowsB (stepB rng now s)) b"
    and "\<forall>b\<in>set (landedB rng now s). okB (rowsB s) b"
  using stepBalls_all [where P = "okB (rowsB s)" and Q = "okB (rowsB s)", OF stepBall_okB, OF _ assms]
  by (auto simp: stepB_def landedB_def Let_def split_beta)

lemma newQBall_ok: "0 \<le> rows \<Longrightarrow> okB rows (newQBall x0 y0 r rows sp p ys)"
  by (simp add: okB_def countersOkB_def newQBall_def)

lemma applyB_okB:
  assumes "\<forall>b\<in>set (ballsB s). okB (rowsB s) b" "0 \<le> rowsB s" "validEventB e"
  shows "(\<forall>b\<in>set (ballsB (applyB rng s e)). okB (rowsB (applyB rng s e)) b) \<and> 0 \<le> rowsB (applyB rng s e)"
proof (cases e)
  case LaunchB
  then show ?thesis using assms by (auto simp: launchBallB_def Let_def newQBall_ok)
next
  case (StepB now)
  then show ?thesis using stepB_okB(1) [OF assms(1)] assms(2) by (simp add: stepB_def Let_def split_beta)
next
  case ResetB
  then show ?thesis using assms by (simp add: resetB_def)
next
  case (SetRowsB n clk)
  then show ?thesis using assms by (simp add: setRowsB_def)
next
  case (SetBiasB x)
  then show ?thesis using assms by (simp add: setBiasB_def)
qed

lemma runB_okB:
  assumes "\<forall>b\<in>set (ballsB s). okB (rowsB s) b" "0 \<le> rowsB s" "list_all validEventB evs"
  shows "(\<forall>b\<in>set (ballsB (runB rng s evs)). okB (rowsB (runB rng s evs)) b) \<and> 0 \<le> rowsB (runB rng s evs)"
  using assms
proof (induction evs arbitrary: s)
  case Nil
  then show ?case by (simp add: runB_def)
next
  case (Cons e evs)
  have "(\<forall>b\<in>set (ballsB (applyB rng s e)). okB (rowsB (applyB rng s e)) b) \<and> 0 \<le> rowsB (applyB rng s e)"
    using Cons.prems by (intro applyB_okB) simp_all
  then show ?case using Cons.IH [of "applyB rng s e"] Cons.prems(3) by (simp add: runB_def)
qed

lemma binIndexB_rights: "okB rows b \<Longrightarrow> binIndexB rows b = qrights b"
  by (simp add: okB_def countersOkB_def binIndexB_def clamp_id)

subsection \<open>Variant A\<close>

lemma Math_round_int: "Math_round (of_int k) = k"
  by (simp add: Math_round_def)

lemma Math_round_half: "Math_round (of_int (2 * k) / 2) = k"
  using Math_round_int [of k] by simp

lemma newBall_ok: "0 \<le> rows \<Longrightarrow> countersOkA (newBall x0 y0 0 rows sp ms bias addr clk)"
  by (simp add: countersOkA_def rightCountA_def newBall_def)

text \<open>What a call of planNextTarget does to the counters.\<close>

lemma planNextTarget_counters:
  "b_rows (fst (planNextTarget rng cx clk b heap)) = b_rows b \<and>
   b_bias (fst (planNextTarget rng cx clk b heap)) = b_bias b \<and>
   b_rng (fst (planNextTarget rng cx clk b heap)) = b_rng b \<and>
   (if b_row b \<ge> b_rows b
    then b_row (fst (planNextTarget rng cx clk b heap)) = b_row b \<and>
         b_col (fst (planNextTarget rng cx clk b heap)) = b_col b \<and>
         b_done (fst (planNextTarget rng cx clk b heap))
    else b_row (fst (planNextTarget rng cx clk b heap)) = b_row b + 1 \<and>
         b_col (fst (planNextTarget rng cx clk b heap)) =
           b_col b + (if fst (rng (heap (b_rng b))) < clamp (0.5 + b_bias b) 0 1 then 1 else - 1) \<and>
         b_done (fst (planNextTarget rng cx clk b heap)) = b_done b)"
  by (simp add: planNextTarget_def Let_def goRightOf_def split_beta)

lemma planNextTarget_ok:
  assumes "countersOkA b"
  shows "countersOkA (fst (planNextTarget rng cx clk b heap))"
proof (cases "b_row b \<ge> b_rows b")
  case True
  let ?b = "fst (planNextTarget rng cx clk b heap)"
  have "rightCountA ?b = rightCountA b"
    using True planNextTarget_counters [of rng cx clk b heap] by (simp add: rightCountA_def)
  then show ?thesis
    using assms True planNextTarget_counters [of rng cx clk b heap]
    by (simp add: countersOkA_def)
next
  case False
  let ?b = "fst (planNextTarget rng cx clk b heap)"
  have c: "b_col b + b_row b = 2 * rightCountA b" using assms by (simp add: countersOkA_def)
  have nd: "\<not> b_done b" using assms False by (auto simp: countersOkA_def)
  show ?thesis
  proof (cases "fst (rng (heap (b_rng b))) < clamp (0.5 + b_bias b) 0 1")
    case True
    have "b_col ?b + b_row ?b = 2 * (rightCountA b + 1)"
      using planNextTarget_counters [of rng cx clk b heap] \<open>\<not> b_row b \<ge> b_rows b\<close> True c by simp
    then have "rightCountA ?b = rightCountA b + 1" unfolding rightCountA_def [of ?b] by simp
    then show ?thesis
      using planNextTarget_counters [of rng cx clk b heap] \<open>\<not> b_row b \<ge> b_rows b\<close> True assms nd
      by (simp add: countersOkA_def)
  next
    case False
    have "b_col ?b + b_row ?b = 2 * rightCountA b"
      using planNextTarget_counters [of rng cx clk b heap] \<open>\<not> b_row b \<ge> b_rows b\<close> False c by simp
    then have "rightCountA ?b = rightCountA b" unfolding rightCountA_def [of ?b] by simp
    then show ?thesis
      using planNextTarget_counters [of rng cx clk b heap] \<open>\<not> b_row b \<ge> b_rows b\<close> False assms nd
      by (simp add: countersOkA_def)
  qed
qed

lemma update_counters:
  "b_rows (update now b) = b_rows b \<and> b_bias (update now b) = b_bias b \<and>
   b_rng (update now b) = b_rng b \<and>
   b_row (update now b) = b_row b \<and> b_col (update now b) = b_col b \<and>
   (b_done (update now b) \<longrightarrow> b_done b \<or> b_row b \<ge> b_rows b)"
  by (simp add: update_def Let_def)

lemma update_ok: "countersOkA b \<Longrightarrow> countersOkA (update now b)"
  using update_counters [of now b] by (auto simp: countersOkA_def rightCountA_def)

lemma advanceBall_fst:
  "fst (advanceBall rng cx now clk b heap) =
     update now (if \<not> b_done b \<and> (now - b_t0 b) / b_stepMs b \<ge> 1
                 then fst (planNextTarget rng cx clk b heap) else b)"
  by (simp add: advanceBall_def Let_def split_beta)

lemma advanceBall_ok: "countersOkA b \<Longrightarrow> countersOkA (fst (advanceBall rng cx now clk b heap))"
  by (simp add: advanceBall_fst update_ok planNextTarget_ok)

lemma advanceBalls_all:
  assumes "\<And>b heap clk. P b \<Longrightarrow> Q (fst (advanceBall rng cx now clk b heap))"
  shows "\<forall>b\<in>set bs. P b \<Longrightarrow> \<forall>b\<in>set (fst (advanceBalls rng cx now clk i bs heap)). Q b"
  by (induction bs arbitrary: i heap) (auto simp: split_beta Let_def assms)

lemma collect_subset: "set (fst (collect rows bs t)) \<subseteq> set bs"
  by (induction bs arbitrary: t) (auto simp: split_beta Let_def)

lemma tickA_ok:
  assumes "\<forall>b\<in>set (ballsA s). countersOkA b"
  shows "\<forall>b\<in>set (ballsA (tickA rng now clk s)). countersOkA b"
    and "\<forall>b\<in>set (landedA rng now clk s). countersOkA b \<and> b_done b"
proof -
  have a: "\<forall>b\<in>set (fst (advanceBalls rng (widthA (scaleA s) / 2) now clk 0 (ballsA s) (heapA s))). countersOkA b"
    using advanceBalls_all [where P = countersOkA and Q = countersOkA, OF advanceBall_ok, OF _ assms] .
  show "\<forall>b\<in>set (ballsA (tickA rng now clk s)). countersOkA b"
    using a collect_subset by (fastforce simp: tickA_def Let_def split_beta)
  show "\<forall>b\<in>set (landedA rng now clk s). countersOkA b \<and> b_done b"
    using a by (simp add: landedA_def)
qed

lemma applyA_ok:
  assumes "\<forall>b\<in>set (ballsA s). countersOkA b" "0 \<le> rowsA s" "validEventA e"
  shows "(\<forall>b\<in>set (ballsA (applyA rng s e)). countersOkA b) \<and> 0 \<le> rowsA (applyA rng s e)"
proof (cases e)
  case (LaunchA clk)
  then show ?thesis using assms by (auto simp: launchBallA_def Let_def newBall_ok)
next
  case (TickA now clk)
  then show ?thesis using tickA_ok(1) [OF assms(1)] assms(2) by (simp add: tickA_def Let_def split_beta)
next
  case ResetA
  then show ?thesis using assms by (simp add: resetA_def)
next
  case (SetRowsA n)
  then show ?thesis using assms by (simp add: setRowsA_def)
next
  case (SetSeedA seed random)
  then show ?thesis using assms by (simp add: setSeedA_def)
qed (use assms in simp_all)

lemma runA_ok:
  assumes "\<forall>b\<in>set (ballsA s). countersOkA b" "0 \<le> rowsA s" "list_all validEventA evs"
  shows "(\<forall>b\<in>set (ballsA (runA rng s evs)). countersOkA b) \<and> 0 \<le> rowsA (runA rng s evs)"
  using assms
proof (induction evs arbitrary: s)
  case Nil
  then show ?case by (simp add: runA_def)
next
  case (Cons e evs)
  have "(\<forall>b\<in>set (ballsA (applyA rng s e)). countersOkA b) \<and> 0 \<le> rowsA (applyA rng s e)"
    using Cons.prems by (intro applyA_ok) simp_all
  then show ?case using Cons.IH [of "applyA rng s e"] Cons.prems(3) by (simp add: runA_def)
qed

lemma binIndexA_rights:
  assumes "countersOkA b" "b_done b" "b_rows b = rows"
  shows "binIndexA rows b = rightCountA b"
proof -
  have r: "b_row b = rows" using assms by (simp add: countersOkA_def)
  have "b_col b + rows = 2 * rightCountA b" using assms r by (simp add: countersOkA_def)
  then have "(of_int (b_col b) + of_int rows) / 2 = (of_int (2 * rightCountA b) / 2 :: real)"
    by (metis of_int_add)
  then have "Math_round ((of_int (b_col b) + of_int rows) / 2) = rightCountA b"
    using Math_round_half [of "rightCountA b"] by simp
  then show ?thesis using assms r by (simp add: binIndexA_def clamp_id countersOkA_def)
qed

text \<open>
  The counters in every run. Variant B: from a board whose balls are sound, under
  events the controls can send, every ball in flight and every ball that lands has
  \<open>0 \<le> rights \<le> row \<le> rows\<close>, and lands in bin \<open>rights\<close>. Variant A: the same for
  \<open>rightCountA\<close>, and a ball that lands on a board with the row count the ball was built
  for lands in bin \<open>rightCountA\<close>.
\<close>

lemma counters_in_runs:
  assumes "\<forall>b\<in>set (ballsB s). okB (rowsB s) b" and "0 \<le> rowsB s"
      and "list_all validEventB evs"
      and "\<forall>a\<in>set (ballsA sa). countersOkA a" and "0 \<le> rowsA sa"
      and "list_all validEventA evsA"
  shows "(\<forall>b\<in>set (ballsB (runB rng s evs)). countersOkB b) \<and>
         (\<forall>b\<in>set (landedB rng now (runB rng s evs)).
            countersOkB b \<and> binIndexB (rowsB (runB rng s evs)) b = qrights b) \<and>
         (\<forall>a\<in>set (ballsA (runA rng sa evsA)). countersOkA a) \<and>
         (\<forall>a\<in>set (landedA rng now clk (runA rng sa evsA)).
            countersOkA a \<and>
            (b_rows a = rowsA (runA rng sa evsA) \<longrightarrow>
               binIndexA (rowsA (runA rng sa evsA)) a = rightCountA a))"
proof -
  note b = runB_okB [OF assms(1-3), of rng]
  note a = runA_ok [OF assms(4-6), of rng]
  have lb: "\<forall>b\<in>set (landedB rng now (runB rng s evs)). okB (rowsB (runB rng s evs)) b"
    using stepB_okB(2) [OF conjunct1 [OF b]] .
  have la: "\<forall>b\<in>set (landedA rng now clk (runA rng sa evsA)). countersOkA b \<and> b_done b"
    using tickA_ok(2) [OF conjunct1 [OF a]] .
  show ?thesis
    using b a lb la by (auto simp: okB_def binIndexB_rights binIndexA_rights)
qed

section \<open>Tally conservation\<close>




lemma tallySum_zeros: "tallySum (zeros n) = 0"
  by (simp add: tallySum_def zeros_def sum_list_replicate)











lemma advanceBalls_length [simp]: "length (fst (advanceBalls rng cx now clk i bs heap)) = length bs"
  by (induction bs arbitrary: i heap) (simp_all add: split_beta Let_def)





section \<open>The two variants agree on the bin\<close>

lemma crossRowB_frame:
  "qrowYs (fst (crossRowB rng rows now q g)) = qrowYs q \<and> qy (fst (crossRowB rng rows now q g)) = qy q"
  by (simp add: crossRowB_def Let_def split_beta)

lemma planNextTarget_heap:
  "snd (planNextTarget rng cx clk a heap) (b_rng a) =
     (if b_row a \<ge> b_rows a then heap (b_rng a) else snd (rng (heap (b_rng a))))"
  by (simp add: planNextTarget_def Let_def split_beta)

lemma crossRowB_snd:
  "snd (crossRowB rng rows now q g) =
     (if qrow q < qrows q \<and> reachedRow (qy q) (qrowYs q) (qrow q) then snd (rng g) else g)"
  by (simp add: crossRowB_def Let_def split_beta)

lemma coupled_step:
  assumes "coupled a heap q g"
  shows "coupled (fst (planNextTarget rng cx clk a heap)) (snd (planNextTarget rng cx clk a heap))
           (fst (crossRowB rng rows now q g)) (snd (crossRowB rng rows now q g)) \<and>
         qrow (fst (crossRowB rng rows now q g)) = (if qrow q < qrows q then qrow q + 1 else qrow q)"
proof (cases "qrow q < qrows q")
  case True
  have r: "reachedRow (qy q) (qrowYs q) (qrow q)"
    using assms True by (auto simp: coupled_def reachedRow_def)
  have na: "\<not> b_row a \<ge> b_rows a" using assms True by (simp add: coupled_def)
  show ?thesis
    using assms True r na planNextTarget_counters [of rng cx clk a heap]
      crossRowB_counters [of rng rows now q g] crossRowB_frame [of rng rows now q g]
      planNextTarget_heap [of rng cx clk a heap] crossRowB_snd [of rng rows now q g]
    by (simp add: coupled_def)
next
  case False
  have na: "b_row a \<ge> b_rows a" using assms False by (simp add: coupled_def)
  show ?thesis
    using assms False na planNextTarget_counters [of rng cx clk a heap]
      crossRowB_counters [of rng rows now q g] crossRowB_frame [of rng rows now q g]
      planNextTarget_heap [of rng cx clk a heap] crossRowB_snd [of rng rows now q g]
    by (simp add: coupled_def)
qed

lemma coupled_steps:
  "coupled a heap q g \<Longrightarrow> int k \<le> qrows q - qrow q \<Longrightarrow>
   coupled (fst (planTargets k rng cx clk a heap)) (snd (planTargets k rng cx clk a heap))
           (fst (crossRowsB k rng rows now q g)) (snd (crossRowsB k rng rows now q g)) \<and>
   qrow (fst (crossRowsB k rng rows now q g)) = qrow q + int k \<and>
   qrows (fst (crossRowsB k rng rows now q g)) = qrows q"
proof (induction k arbitrary: a heap q g)
  case 0
  then show ?case by simp
next
  case (Suc k)
  let ?a = "fst (planNextTarget rng cx clk a heap)" and ?h = "snd (planNextTarget rng cx clk a heap)"
  let ?q = "fst (crossRowB rng rows now q g)" and ?g = "snd (crossRowB rng rows now q g)"
  have lt: "qrow q < qrows q" using Suc.prems(2) by simp
  have c: "coupled ?a ?h ?q ?g" and r: "qrow ?q = qrow q + 1"
    using coupled_step [OF Suc.prems(1), of rng cx clk rows now] lt by simp_all
  have rs: "qrows ?q = qrows q" by (simp add: crossRowB_counters)
  have "int k \<le> qrows ?q - qrow ?q" using Suc.prems(2) r rs by simp
  from Suc.IH [OF c this] r rs show ?case by (simp add: split_beta Let_def)
qed

lemma coupled_index:
  assumes "coupled a heap q g" "qrow q = rows" "qrows q = rows"
  shows "binIndexA rows a = binIndexB rows q \<and> b_col a = 2 * qrights q - rows"
proof -
  have "b_col a + rows = 2 * qrights q" using assms by (simp add: coupled_def)
  then have "(of_int (b_col a) + of_int rows) / 2 = (of_int (2 * qrights q) / 2 :: real)"
    by (metis of_int_add)
  then have "Math_round ((of_int (b_col a) + of_int rows) / 2) = qrights q"
    using Math_round_half [of "qrights q"] by simp
  then show ?thesis using assms by (simp add: binIndexA_def binIndexB_def coupled_def)
qed

text \<open>
  Claim C10. A variant A ball and a variant B ball built for the same \<open>rows\<close> rows and
  the same bias, fed by the same generator from the same state, after \<open>rows\<close>
  deflections each: variant A's \<^verbatim>\<open>clamp(Math.round((col + rows) / 2), 0, rows)\<close> equals
  variant B's \<^verbatim>\<open>clamp(rights, 0, rows)\<close>, and \<open>col = 2 * rights - rows\<close>.
\<close>

theorem variants_agree:
  assumes "0 \<le> rows"
      and "int (length rowYs) = rows" and "\<forall>y\<in>set rowYs. y \<le> yq"
  shows "binIndexA rows
           (fst (planTargets (nat rows) rng cx clk
                  (newBall x0 y0 0 rows sp ms bias addr clk0) heap))
         = binIndexB rows
           (fst (crossRowsB (nat rows) rng rows' now
                  (newQBall xq yq r rows spq (clamp (0.5 + bias) 0 1) rowYs) (heap addr))) \<and>
         b_col (fst (planTargets (nat rows) rng cx clk
                  (newBall x0 y0 0 rows sp ms bias addr clk0) heap))
         = 2 * qrights (fst (crossRowsB (nat rows) rng rows' now
                  (newQBall xq yq r rows spq (clamp (0.5 + bias) 0 1) rowYs) (heap addr))) - rows"
proof -
  let ?a = "newBall x0 y0 0 rows sp ms bias addr clk0"
  let ?q = "newQBall xq yq r rows spq (clamp (0.5 + bias) 0 1) rowYs"
  have c0: "coupled ?a heap ?q (heap addr)"
    using assms by (simp add: coupled_def newBall_def newQBall_def)
  have k: "int (nat rows) \<le> qrows ?q - qrow ?q" using assms(1) by (simp add: newQBall_def)
  note s = coupled_steps [OF c0 k, of rng cx clk rows' now]
  have rw: "qrow (fst (crossRowsB (nat rows) rng rows' now ?q (heap addr))) = rows"
    using s assms(1) by (simp add: newQBall_def)
  have rs: "qrows (fst (crossRowsB (nat rows) rng rows' now ?q (heap addr))) = rows"
    using s by (simp add: newQBall_def)
  show ?thesis using coupled_index [OF conjunct1 [OF s] rw rs] by simp
qed

theorem variants_agree_witness:
  "binIndexA 5
     (fst (planTargets 5 mulberry32_next 260 0 (newBall 260 43.2 0 5 28 140 0 0 0)
            (\<lambda>_. 12345)))
   = binIndexB 5
     (fst (crossRowsB 5 mulberry32_next 5 0
            (newQBall 260 600 3.2 5 28 (clamp (0.5 + 0) 0 1) [60, 88, 116, 144, 172]) 12345))"
proof -
  have h: "(0::int) \<le> 5" "int (length [60, 88, 116, 144, 172 :: real]) = 5"
    "\<forall>y\<in>set [60, 88, 116, 144, 172 :: real]. y \<le> 600"
    by simp_all
  have "binIndexA 5
     (fst (planTargets (nat 5) mulberry32_next 260 0 (newBall 260 43.2 0 5 28 140 0 0 0)
            (\<lambda>_. 12345)))
   = binIndexB 5
     (fst (crossRowsB (nat 5) mulberry32_next 5 0
            (newQBall 260 600 3.2 5 28 (clamp (0.5 + 0) 0 1) [60, 88, 116, 144, 172])
            ((\<lambda>_. 12345) (0::nat))))"
    by (rule conjunct1 [OF variants_agree [OF h]])
  then show ?thesis by simp
qed

section \<open>The bin range and the deflection probability\<close>





lemma advanceBall_bias [simp]: "b_bias (fst (advanceBall rng cx now clk b heap)) = b_bias b"
  by (simp add: advanceBall_fst update_counters planNextTarget_counters)





section \<open>The generator\<close>

text \<open>
  A seed other than 0 fixes the generator's state, whatever \<^verbatim>\<open>Math.random()\<close> would
  return; the state then fixes every value drawn.
\<close>

lemma mulberry32_seeded: "seed \<noteq> 0 \<Longrightarrow> mulberry32 seed r1 = mulberry32 seed r2"
  by (simp add: mulberry32_def)

lemma mulberry32_unseeded: "mulberry32 0 (1 / 4) = 536870912" "mulberry32 0 (3 / 4) = 1610612736"
  by (simp_all add: mulberry32_def)

text \<open>
  The values drawn from seed 12345 (variant B's fixed seed and variant A's default), and
  from the two states that seed 0 leads to when \<^verbatim>\<open>Math.random()\<close> returns 0.25 or 0.75.
\<close>

lemma mulberry32_12345:
  "mulberry32_next 12345 = (4207900869 / 4294967296, 1831578158)"
  "mulberry32_next 1831578158 = (1317490944 / 4294967296, 3663143971)"
  "mulberry32_next 3663143971 = (2079646450 / 4294967296, 1199742488)"
  "mulberry32_next 1199742488 = (3513001552 / 4294967296, 3031308301)"
  "mulberry32_next 3031308301 = (2187978186 / 4294967296, 567906818)"
  "mulberry32_next 567906818 = (1492380277 / 4294967296, 2399472631)"
  "mulberry32_next 2399472631 = (316786230 / 4294967296, 4231038444)"
  "mulberry32_next 4231038444 = (3291647763 / 4294967296, 1767636961)"
  "mulberry32_next 1767636961 = (4281336957 / 4294967296, 3599202774)"
  "mulberry32_next 3599202774 = (3543444592 / 4294967296, 1135801291)"
  "mulberry32_next 1135801291 = (1975405240 / 4294967296, 2967367104)"
  "mulberry32_next 2967367104 = (4062369846 / 4294967296, 503965621)"
  "mulberry32_next 503965621 = (3825196835 / 4294967296, 2335531434)"
  "mulberry32_next 2335531434 = (4163299428 / 4294967296, 4167097247)"
  "mulberry32_next 4167097247 = (2695781441 / 4294967296, 1703695764)"
  "mulberry32_next 1703695764 = (1068698135 / 4294967296, 3535261577)"
  "mulberry32_next 3535261577 = (2032992014 / 4294967296, 1071860094)"
  "mulberry32_next 1071860094 = (1310158935 / 4294967296, 2903425907)"
  by (simp_all add: mulberry32_next_def Let_def)

lemma mulberry32_quarter:
  "mulberry32_next 536870912 = (2515443335 / 4294967296, 2368436725)"
  "mulberry32_next 2368436725 = (1585111823 / 4294967296, 4200002538)"
  "mulberry32_next 4200002538 = (4120008812 / 4294967296, 1736601055)"
  "mulberry32_next 1736601055 = (815154538 / 4294967296, 3568166868)"
  "mulberry32_next 3568166868 = (81957970 / 4294967296, 1104765385)"
  by (simp_all add: mulberry32_next_def Let_def)

lemma mulberry32_three_quarters:
  "mulberry32_next 1610612736 = (2404280581 / 4294967296, 3442178549)"
  "mulberry32_next 3442178549 = (3542765381 / 4294967296, 978777066)"
  "mulberry32_next 978777066 = (4044270879 / 4294967296, 2810342879)"
  "mulberry32_next 2810342879 = (3809676402 / 4294967296, 346941396)"
  "mulberry32_next 346941396 = (3056638481 / 4294967296, 2178507209)"
  by (simp_all add: mulberry32_next_def Let_def)

lemmas A_defs = runA_def tickA_def landedA_def advanceBall_def planNextTarget_def update_def
  binIndexA_def launchBallA_def newBall_def setRowsA_def setSeedA_def resetA_def initA_def
  widthA_def spacingA_def boardTopA_def Math_round_def zeros_def bump_def clamp_def goRightOf_def
  mulberry32_def rightCountA_def always_def

text \<open>
  Claim C1 at seed 0, which the seed field of variant A produces when it is emptied
  (\<^verbatim>\<open>parseInt(e.target.value || 0)\<close>). Two runs on a 5-row board with the same seed 0, the
  same bias, one drop at the same time and the same six frames. In the first
  \<^verbatim>\<open>Math.random()\<close> returns 0.25 inside \<^verbatim>\<open>mulberry32\<close>, in the second 0.75. The ball lands
  in bin 3 in the first run and in bin 0 in the second.
\<close>

theorem seed_zero_runs_differ:
  "binTalliesA (runA mulberry32_next initA
      (SetRowsA 5 # SetSeedA 0 (1 / 4) # LaunchA 0 # framesA 0 140 6))
     = [Count 0, Count 0, Count 0, Count 1, Count 0, Count 0] \<and>
   binTalliesA (runA mulberry32_next initA
      (SetRowsA 5 # SetSeedA 0 (3 / 4) # LaunchA 0 # framesA 0 140 6))
     = [Count 1, Count 0, Count 0, Count 0, Count 0, Count 0]"
  by (simp add: A_defs Let_def eval_nat_numeral mulberry32_quarter mulberry32_three_quarters)

section \<open>Reset and row-count change\<close>

text \<open>Reset empties the balls and the tallies in both variants.\<close>

lemma resetB_clears:
  "ballsB (resetB s) = [] \<and> binTalliesB (resetB s) = zeros (rowsB s + 1) \<and>
   tallySum (binTalliesB (resetB s)) = 0"
  by (simp add: resetB_def tallySum_zeros)

lemma resetA_clears:
  "ballsA (resetA s) = [] \<and> binTalliesA (resetA s) = zeros (rowsA s + 1) \<and>
   tallySum (binTalliesA (resetA s)) = 0"
  by (simp add: resetA_def tallySum_zeros)

text \<open>A row-count change empties the balls and the tallies in variant B.\<close>

lemma setRowsB_clears:
  "n \<noteq> rowsB s \<Longrightarrow>
   ballsB (setRowsB n clk s) = [] \<and> binTalliesB (setRowsB n clk s) = zeros (n + 1)"
  by (simp add: setRowsB_def)

text \<open>In variant A it empties the tallies and leaves the balls.\<close>

lemma setRowsA_keeps_balls:
  "ballsA (setRowsA n s) = ballsA s \<and>
   (n \<noteq> rowsA s \<longrightarrow> binTalliesA (setRowsA n s) = zeros (n + 1))"
  by (simp add: setRowsA_def)

text \<open>
  Claim C3 on variant A. A ball is dropped on the 12-row board and the rows slider is
  moved to 5. The ball built for 12 rows is still in flight on the 5-row board; thirteen
  frames later it is tallied in bin 2 of the new board's six bins.
\<close>

theorem rows_change_keeps_ball:
  "rowsA (runA mulberry32_next initA [LaunchA 0, SetRowsA 5]) = 5 \<and>
   map b_rows (ballsA (runA mulberry32_next initA [LaunchA 0, SetRowsA 5])) = [12] \<and>
   binTalliesA (runA mulberry32_next initA (LaunchA 0 # SetRowsA 5 # framesA 0 140 13))
     = [Count 0, Count 0, Count 1, Count 0, Count 0, Count 0]"
  by (simp add: A_defs Let_def eval_nat_numeral mulberry32_12345)

text \<open>
  Claim C4 on the same run of variant A. When the ball lands, the board has 5 rows; the
  ball has crossed 12 rows, 5 of them to the right, and is reported in bin 2.
\<close>

theorem stale_ball_bin:
  "map (\<lambda>b. (b_row b, rightCountA b, binIndexA 5 b))
     (landedA mulberry32_next 1820 (\<lambda>_. 1820)
        (runA mulberry32_next initA (LaunchA 0 # SetRowsA 5 # framesA 0 140 12)))
     = [(12, 5, 2)] \<and>
   rowsA (runA mulberry32_next initA (LaunchA 0 # SetRowsA 5 # framesA 0 140 12)) = 5"
  by (simp add: A_defs Let_def eval_nat_numeral mulberry32_12345)

section \<open>The tween\<close>

text \<open>Variant B places the ball at \<open>txStart + (txTarget - txStart) * ease(u)\<close>.\<close>

lemma tweenB_interpolates:
  "qtxActive b \<Longrightarrow>
   qx (tweenB dt now b) =
     qtxStart b + (qtxTarget b - qtxStart b) *
       easeInOut (clamp ((now - qtxT0 b) / 1000 / qtxDur b) 0 1)"
  by (simp add: tweenB_def Let_def)

text \<open>
  Variant A moves the ball from where the previous frame left it:
  \<open>x + (tx - x) * ease(u)\<close> with \<open>x\<close> the current position.
\<close>

lemma update_moves_from_current:
  "\<not> b_done b \<Longrightarrow>
   b_y (update now b) =
     b_y b + (b_ty b - b_y b) * easeInOut (clamp ((now - b_t0 b) / b_stepMs b) 0 1)"
  by (simp add: update_def easeInOut_def Let_def)

text \<open>
  Claim C6 on variant A. A ball is dropped at time 0 on the default board: it starts at
  \<open>y = 43.2\<close> and its first target is \<open>y = 71.2\<close>, 140 ms away. At time 105 the progress
  is \<open>u = 0.75\<close> and the claimed position is \<open>43.2 + 28 * ease(0.75) = 67.7\<close>. The ball
  is there if the frame at 105 is the first one drawn; if a frame was drawn at time 70 as
  well, the ball is at 69.45.
\<close>

theorem tween_depends_on_frames:
  "map b_y (ballsA (runA mulberry32_next initA [LaunchA 0, TickA 105 (\<lambda>_. 105)]))
     = [677 / 10] \<and>
   map b_y (ballsA (runA mulberry32_next initA
      [LaunchA 0, TickA 70 (\<lambda>_. 70), TickA 105 (\<lambda>_. 105)])) = [1389 / 20] \<and>
   43.2 + (71.2 - 43.2) * easeInOut (clamp ((105 - 0) / 140) 0 1) = 677 / 10"
  by (simp add: A_defs easeInOut_def Let_def)

section \<open>Runs of variant B\<close>

lemma runB_append: "runB rng s (xs @ ys) = runB rng (runB rng s xs) ys"
  by (simp add: runB_def)

lemma framesB_add: "framesB t d (m + n) = framesB t d m @ framesB (t + d * real m) d n"
  by (induction m arbitrary: t) (simp_all add: algebra_simps)

text \<open>A ball lands only at or below the bottom line: \<open>y - r \<ge> boardBottom\<close>.\<close>

lemma stepBall_done:
  assumes "\<not> qdone b" and "qdone (fst (stepBall rng rows dt now b g t))"
  shows "qy (fst (stepBall rng rows dt now b g t)) - qr (fst (stepBall rng rows dt now b g t))
     \<ge> boardBottomB"
proof -
  let ?m = "wallsB rows (fst (crossRowB rng rows now (fallB dt (tweenB dt now (integrateB dt b))) g))"
  have nd: "\<not> qdone ?m" using assms(1) by (simp add: crossRowB_counters)
  have s: "fst (stepBall rng rows dt now b g t) = fst (landB rows ?m t)"
    using assms(1) by (simp add: stepBall_fst)
  show ?thesis using assms(2) nd unfolding s by (simp add: landB_def split: if_splits)
qed

lemma landed_below_bottom:
  assumes "\<forall>b\<in>set (ballsB s). \<not> qdone b"
  shows "\<forall>b\<in>set (landedB rng now s). qy b - qr b \<ge> boardBottomB"
proof -
  have "\<forall>b\<in>set (fst (stepBalls rng (rowsB s) (min 0.033 ((now - lastB s) / 1000)) now
      (ballsB s) (rngB s) (binTalliesB s))). qdone b \<longrightarrow> qy b - qr b \<ge> boardBottomB"
    by (rule stepBalls_all [where P = "\<lambda>b. \<not> qdone b", OF _ assms]) (simp add: stepBall_done)
  then show ?thesis by (simp add: landedB_def Let_def)
qed

subsection \<open>One frame for one ball\<close>

text \<open>What each part of a frame does to a ball in flight, written with \<open>ballAt\<close>.\<close>

lemma ballAt_done [simp]: "\<not> qdone (ballAt R p x y vy r k a s t t0)"
  by (simp add: ballAt_def newQBall_def)

lemma ballAt_fields [simp]:
  "qrow (ballAt R p x y vy r k a s t t0) = r" "qrows (ballAt R p x y vy r k a s t t0) = R"
  "qrights (ballAt R p x y vy r k a s t t0) = k" "qy (ballAt R p x y vy r k a s t t0) = y"
  "qr (ballAt R p x y vy r k a s t t0) = ballRadiusB"
  "qpRight (ballAt R p x y vy r k a s t t0) = p"
  by (simp_all add: ballAt_def newQBall_def)

lemma integrateB_ballAt:
  "integrateB dt (ballAt R p x y vy r k a s t t0) =
     ballAt R p x y ((vy + G * dt) * (1 - AIR_DAMPING * 0.5)) r k a s t t0"
  by (simp add: integrateB_def ballAt_def newQBall_def)

lemma tweenB_ballAt:
  "tweenB dt now (ballAt R p x y vy r k a s t t0) =
     (let u = clamp ((now - t0) / 1000 / 0.14) 0 1
      in ballAt R p (if a then s + (t - s) * easeInOut u else x) y vy r k (a \<and> \<not> u \<ge> 1) s t t0)"
  by (simp add: tweenB_def ballAt_def newQBall_def Let_def)

lemma fallB_ballAt:
  "fallB dt (ballAt R p x y vy r k a s t t0) = ballAt R p x (y + vy * dt) vy r k a s t t0"
  by (simp add: fallB_def ballAt_def newQBall_def)

lemma crossRowB_ballAt:
  "crossRowB rng rows now (ballAt R p x y vy r k a s t t0) g =
     (if r < R \<and> reachedRow y (rowYsB R) r then
        (let goRight = goRightOf (fst (rng g)) p;
             leftBound = boardCenterXB - (of_int rows * spacingB) / 2;
             rightBound = boardCenterXB + (of_int rows * spacingB) / 2;
             targetX = clamp (x + of_int goRight * (spacingB / 2))
                         (leftBound + ballRadiusB) (rightBound - ballRadiusB)
         in (ballAt R p x y (- \<bar>BOUNCE_VY\<bar>) (r + 1) (if goRight > 0 then k + 1 else k)
               True x targetX now, snd (rng g)))
      else (ballAt R p x y vy r k a s t t0, g))"
  by (simp add: crossRowB_def ballAt_def newQBall_def Let_def split_beta)

lemma wallsB_ballAt:
  "wallsB rows (ballAt R p x y vy r k a s t t0) =
     (let leftWall = boardCenterXB - (of_int rows * spacingB) / 2 - spacingB / 2 + ballRadiusB;
          rightWall = boardCenterXB + (of_int rows * spacingB) / 2 + spacingB / 2 - ballRadiusB;
          xl = (if x < leftWall then leftWall else x)
      in ballAt R p (if xl > rightWall then rightWall else xl) y vy r k a s t t0)"
  by (simp add: wallsB_def ballAt_def newQBall_def Let_def)

lemma landB_ballAt:
  "landB rows (ballAt R p x y vy r k a s t t0) tally =
     (if y - ballRadiusB \<ge> boardBottomB
      then ((ballAt R p x y vy r k a s t t0)\<lparr>qdone := True\<rparr>, bump (clamp k 0 rows) tally)
      else (ballAt R p x y vy r k a s t t0, tally))"
  by (simp add: landB_def binIndexB_def ballAt_def newQBall_def)

lemma launchBallB_oneBall:
  "ballsB s = [] \<Longrightarrow> binTalliesB s = zeros (rowsB s + 1) \<Longrightarrow>
   launchBallB s =
     oneBall (rowsB s) (biasB s)
       (ballAt (rowsB s) (pRightB (biasB s)) boardCenterXB (boardTopB - spacingB * 0.8) 0 0 0
          False 0 0 0) (rngB s) (lastB s)"
  by (simp add: launchBallB_def oneBall_def ballAt_def newQBall_def Let_def)

lemmas frame_rules = runB_def stepB_def stepBall_def integrateB_ballAt tweenB_ballAt fallB_ballAt
  crossRowB_ballAt wallsB_ballAt landB_ballAt oneBall_def reachedRow_def clamp_def easeInOut_def
  goRightOf_def spacingB_def ballRadiusB_def widthB_def heightB_def boardCenterXB_def
  topMarginB_def bottomMarginB_def boardTopB_def boardBottomB_def G_def BOUNCE_VY_def
  AIR_DAMPING_def always_def Let_def


lemma rowYsB_5: "rowYsB 5 = [60, 88, 116, 144, 172]"
  by (simp add: rowYsB_def pegRowsB_def pegRows_def Let_def upto.simps spacingB_def
      boardTopB_def topMarginB_def)

lemma rowYsB_20:
  "rowYsB 20 = [60, 88, 116, 144, 172, 200, 228, 256, 284, 312, 340, 368, 396, 424, 452, 480,
     508, 536, 564, 592]"
  by (simp add: rowYsB_def pegRowsB_def pegRows_def Let_def upto.simps spacingB_def
      boardTopB_def topMarginB_def)

text \<open>The rows slider is moved to \<open>n\<close> and one ball is dropped.\<close>

lemma launched:
  "runB rng (setRowsB 20 0 (initB 0)) [LaunchB] =
     oneBall 20 0 (ballAt 20 (1 / 2) 260 (188 / 5) 0 0 0 False 0 0 0) 12345 0"
  "runB rng (setRowsB 5 0 (initB 0)) [LaunchB] =
     oneBall 5 0 (ballAt 5 (1 / 2) 260 (188 / 5) 0 0 0 False 0 0 0) 12345 0"
  by (simp_all add: runB_def launchBallB_oneBall setRowsB_def initB_def pRightB_def clamp_def
      mulberry32_def boardCenterXB_def widthB_def boardTopB_def topMarginB_def spacingB_def)

subsection \<open>A board of 20 rows\<close>

text \<open>
  The rows slider is moved to 20, one ball is dropped, and a frame is drawn every 33 ms.
  The states after every 15 frames and after 173 frames:
\<close>

lemma twenty_rows_15:
  "runB mulberry32_next (setRowsB 20 0 (initB 0)) (LaunchB # framesB 0 33 15) =
     oneBall 20 0 (ballAt 20 (1 / 2) 246 (220245612185801004108587751943633 /
       2500000000000000000000000000000) (- 120) 2 1 True 246 260 495) 3663143971 495"
proof -
  have split: "LaunchB # framesB 0 33 15 = [LaunchB] @ framesB 0 33 15" by simp
  show ?thesis
    unfolding split runB_append launched
    by (simp add: frame_rules eval_nat_numeral rowYsB_20 mulberry32_12345 cong: let_weak_cong prod.case_cong_weak)
qed

lemma twenty_rows_30:
  "runB mulberry32_next (setRowsB 20 0 (initB 0)) (LaunchB # framesB 0 33 30) =
     oneBall 20 0 (ballAt 20 (1 / 2) 274 (300295427953640372428667183135322367 /
       2500000000000000000000000000000000) (195013981514094201 / 2500000000000000) 3 2
       False 260 274 825) 1199742488 990"
proof -
  have split: "LaunchB # framesB 0 33 30 = (LaunchB # framesB 0 33 15) @ framesB 495 33 15"
    using framesB_add [of 0 33 15 15] by simp
  show ?thesis
    unfolding split runB_append twenty_rows_15
    by (simp add: frame_rules eval_nat_numeral rowYsB_20 mulberry32_12345 cong: let_weak_cong prod.case_cong_weak)
qed

lemma twenty_rows_45:
  "runB mulberry32_next (setRowsB 20 0 (initB 0)) (LaunchB # framesB 0 33 45) =
     oneBall 20 0 (ballAt 20 (1 / 2) (180911 / 700) (216231034775214171862033683135322367 /
       1250000000000000000000000000000000) (- (200799 / 2500)) 5 2 True 260 246 1452)
       567906818 1485"
proof -
  have split: "LaunchB # framesB 0 33 45 = (LaunchB # framesB 0 33 30) @ framesB 990 33 15"
    using framesB_add [of 0 33 30 15] by simp
  show ?thesis
    unfolding split runB_append twenty_rows_30
    by (simp add: frame_rules eval_nat_numeral rowYsB_20 mulberry32_12345 cong: let_weak_cong prod.case_cong_weak)
qed

lemma twenty_rows_60:
  "runB mulberry32_next (setRowsB 20 0 (initB 0)) (LaunchB # framesB 0 33 60) =
     oneBall 20 0 (ballAt 20 (1 / 2) 260 (528831011246842855568513797462334101 /
       2500000000000000000000000000000000) (293719967532580106799 / 2500000000000000000) 6
       3 False 246 260 1782) 2399472631 1980"
proof -
  have split: "LaunchB # framesB 0 33 60 = (LaunchB # framesB 0 33 45) @ framesB 1485 33 15"
    using framesB_add [of 0 33 45 15] by simp
  show ?thesis
    unfolding split runB_append twenty_rows_45
    by (simp add: frame_rules eval_nat_numeral rowYsB_20 mulberry32_12345 cong: let_weak_cong prod.case_cong_weak)
qed

lemma twenty_rows_75:
  "runB mulberry32_next (setRowsB 20 0 (initB 0)) (LaunchB # framesB 0 33 75) =
     oneBall 20 0 (ballAt 20 (1 / 2) (46861 / 175) (161987221570513920834886745149414117 /
       625000000000000000000000000000000) (- (101697201 / 2500000)) 8 4 True 274 260 2409)
       1767636961 2475"
proof -
  have split: "LaunchB # framesB 0 33 75 = (LaunchB # framesB 0 33 60) @ framesB 1980 33 15"
    using framesB_add [of 0 33 60 15] by simp
  show ?thesis
    unfolding split runB_append twenty_rows_60
    by (simp add: frame_rules eval_nat_numeral rowYsB_20 mulberry32_12345 cong: let_weak_cong prod.case_cong_weak)
qed

lemma twenty_rows_90:
  "runB mulberry32_next (setRowsB 20 0 (initB 0)) (LaunchB # framesB 0 33 90) =
     oneBall 20 0 (ballAt 20 (1 / 2) 246 (188532202871818086732884788977072367 /
       625000000000000000000000000000000) (490835920317482479165508799 /
       2500000000000000000000000) 9 4 False 260 246 2706) 3599202774 2970"
proof -
  have split: "LaunchB # framesB 0 33 90 = (LaunchB # framesB 0 33 75) @ framesB 2475 33 15"
    using framesB_add [of 0 33 75 15] by simp
  show ?thesis
    unfolding split runB_append twenty_rows_75
    by (simp add: frame_rules eval_nat_numeral rowYsB_20 mulberry32_12345 cong: let_weak_cong prod.case_cong_weak)
qed

lemma twenty_rows_105:
  "runB mulberry32_next (setRowsB 20 0 (initB 0)) (LaunchB # framesB 0 33 105) =
     oneBall 20 0 (ballAt 20 (1 / 2) (43034 / 175) (169437657330050610301853583135322367 /
       500000000000000000000000000000000) (96209190704799 / 2500000000000) 11 5 True 232
       246 3333) 2967367104 3465"
proof -
  have split: "LaunchB # framesB 0 33 105 = (LaunchB # framesB 0 33 90) @ framesB 2970 33 15"
    using framesB_add [of 0 33 90 15] by simp
  show ?thesis
    unfolding split runB_append twenty_rows_90
    by (simp add: frame_rules eval_nat_numeral rowYsB_20 mulberry32_12345 cong: let_weak_cong prod.case_cong_weak)
qed

lemma twenty_rows_120:
  "runB mulberry32_next (setRowsB 20 0 (initB 0)) (LaunchB # framesB 0 33 120) =
     oneBall 20 0 (ballAt 20 (1 / 2) 232 (496208378318503065718834049405967101 /
       1250000000000000000000000000000000) (- 120) 13 5 True 232 218 3960) 2335531434 3960"
proof -
  have split: "LaunchB # framesB 0 33 120 = (LaunchB # framesB 0 33 105) @ framesB 3465 33 15"
    using framesB_add [of 0 33 105 15] by simp
  show ?thesis
    unfolding split runB_append twenty_rows_105
    by (simp add: frame_rules eval_nat_numeral rowYsB_20 mulberry32_12345 cong: let_weak_cong prod.case_cong_weak)
qed

lemma twenty_rows_135:
  "runB mulberry32_next (setRowsB 20 0 (initB 0)) (LaunchB # framesB 0 33 135) =
     oneBall 20 0 (ballAt 20 (1 / 2) 204 (1072466572404845499757747530003623569 /
       2500000000000000000000000000000000) (195013981514094201 / 2500000000000000) 14 5
       False 218 204 4290) 4167097247 4455"
proof -
  have split: "LaunchB # framesB 0 33 135 = (LaunchB # framesB 0 33 120) @ framesB 3960 33 15"
    using framesB_add [of 0 33 120 15] by simp
  show ?thesis
    unfolding split runB_append twenty_rows_120
    by (simp add: frame_rules eval_nat_numeral rowYsB_20 mulberry32_12345 cong: let_weak_cong prod.case_cong_weak)
qed

lemma twenty_rows_150:
  "runB mulberry32_next (setRowsB 20 0 (initB 0)) (LaunchB # framesB 0 33 150) =
     oneBall 20 0 (ballAt 20 (1 / 2) (134089 / 700) (75289575875102091940821732071184121 /
       156250000000000000000000000000000) (- (200799 / 2500)) 16 6 True 190 204 4917)
       3535261577 4950"
proof -
  have split: "LaunchB # framesB 0 33 150 = (LaunchB # framesB 0 33 135) @ framesB 4455 33 15"
    using framesB_add [of 0 33 135 15] by simp
  show ?thesis
    unfolding split runB_append twenty_rows_135
    by (simp add: frame_rules eval_nat_numeral rowYsB_20 mulberry32_12345 cong: let_weak_cong prod.case_cong_weak)
qed

lemma twenty_rows_165:
  "runB mulberry32_next (setRowsB 20 0 (initB 0)) (LaunchB # framesB 0 33 165) =
     oneBall 20 0 (ballAt 20 (1 / 2) 218 (1301002155698047982897594144330635303 /
       2500000000000000000000000000000000) (293719967532580106799 / 2500000000000000000) 17
       7 False 204 218 5247) 1071860094 5445"
proof -
  have split: "LaunchB # framesB 0 33 165 = (LaunchB # framesB 0 33 150) @ framesB 4950 33 15"
    using framesB_add [of 0 33 150 15] by simp
  show ?thesis
    unfolding split runB_append twenty_rows_150
    by (simp add: frame_rules eval_nat_numeral rowYsB_20 mulberry32_12345 cong: let_weak_cong prod.case_cong_weak)
qed

lemma twenty_rows_173:
  "runB mulberry32_next (setRowsB 20 0 (initB 0)) (LaunchB # framesB 0 33 173) =
     oneBall 20 0 (ballAt 20 (1 / 2) 232 (1349130732448134393614547896274268303 /
       2500000000000000000000000000000000) (195013981514094201 / 2500000000000000) 18 8
       False 218 232 5544) 2903425907 5709"
proof -
  have split: "LaunchB # framesB 0 33 173 = (LaunchB # framesB 0 33 165) @ framesB 5445 33 8"
    using framesB_add [of 0 33 165 8] by simp
  show ?thesis
    unfolding split runB_append twenty_rows_165
    by (simp add: frame_rules eval_nat_numeral rowYsB_20 mulberry32_12345 cong: let_weak_cong prod.case_cong_weak)
qed

text \<open>
  Claim C2 on that run. Row 18 of the 20 rows lies at \<open>y = 60 + 18 * 28 = 564\<close>, below
  the line \<open>boardBottom + r = 543.2\<close> at which a ball lands. The 174th frame marks the
  ball done: it has crossed 18 of its 20 rows and is tallied in bin 8.
\<close>

theorem twenty_rows_lands_at_row_18:
  "map (\<lambda>b. (qrow b, qrows b, binIndexB 20 b))
     (landedB mulberry32_next 5742
        (runB mulberry32_next (setRowsB 20 0 (initB 0)) (LaunchB # framesB 0 33 173)))
     = [(18, 20, 8)] \<and>
   rowYsB 20 ! 18 = 564 \<and> boardBottomB + ballRadiusB = 543.2"
  unfolding twenty_rows_173
  by (simp add: landedB_def frame_rules rowYsB_20 mulberry32_12345 binIndexB_def
      cong: let_weak_cong prod.case_cong_weak)

subsection \<open>A board of 5 rows and a forced generator\<close>

text \<open>
  The rows slider is moved to 5, one ball is dropped, and a frame is drawn every 33 ms;
  the generator returns 0 at every call. The states after every 14 frames:
\<close>

lemma five_rows_right_14:
  "runB (always 0) (setRowsB 5 0 (initB 0)) (LaunchB # framesB 0 33 14) =
     oneBall 5 0 (ballAt 5 (1 / 2) 274 (200800491400694559217938423367 /
       2500000000000000000000000000) (490835920317482479165508799 /
       2500000000000000000000000) 1 1 False 260 274 198) 12345 462"
proof -
  have split: "LaunchB # framesB 0 33 14 = [LaunchB] @ framesB 0 33 14" by simp
  show ?thesis
    unfolding split runB_append launched
    by (simp add: frame_rules eval_nat_numeral rowYsB_5 cong: let_weak_cong prod.case_cong_weak)
qed

lemma five_rows_right_28:
  "runB (always 0) (setRowsB 5 0 (initB 0)) (LaunchB # framesB 0 33 28) =
     oneBall 5 0 (ballAt 5 (1 / 2) (209719 / 700) (290685063270416896795667183135322367 /
       2500000000000000000000000000000000) (- (2694503799 / 2500000000)) 3 3 True 288 302
       825) 12345 924"
proof -
  have split: "LaunchB # framesB 0 33 28 = (LaunchB # framesB 0 33 14) @ framesB 462 33 14"
    using framesB_add [of 0 33 14 14] by simp
  show ?thesis
    unfolding split runB_append five_rows_right_14
    by (simp add: frame_rules eval_nat_numeral rowYsB_5 cong: let_weak_cong prod.case_cong_weak)
qed

lemma five_rows_right_42:
  "runB (always 0) (setRowsB 5 0 (initB 0)) (LaunchB # framesB 0 33 42) =
     oneBall 5 0 (ballAt 5 (1 / 2) 316 (201722865197422488510478123663505867 /
       1250000000000000000000000000000000) (392327247565047526692201 /
       2500000000000000000000) 4 4 False 302 316 1155) 12345 1386"
proof -
  have split: "LaunchB # framesB 0 33 42 = (LaunchB # framesB 0 33 28) @ framesB 924 33 14"
    using framesB_add [of 0 33 28 14] by simp
  show ?thesis
    unfolding split runB_append five_rows_right_28
    by (simp add: frame_rules eval_nat_numeral rowYsB_5 cong: let_weak_cong prod.case_cong_weak)
qed

lemma five_rows_right_56:
  "runB (always 0) (setRowsB 5 0 (initB 0)) (LaunchB # framesB 0 33 56) =
     oneBall 5 0 (ballAt 5 (1 / 2) (1634 / 5) (574697887952469613608665325679381913955367 /
       2500000000000000000000000000000000000000) (883886509193980608794109322673924312799 /
       2500000000000000000000000000000000000) 5 5 False 316 (1634 / 5) 1452) 12345 1848"
proof -
  have split: "LaunchB # framesB 0 33 56 = (LaunchB # framesB 0 33 42) @ framesB 1386 33 14"
    using framesB_add [of 0 33 42 14] by simp
  show ?thesis
    unfolding split runB_append five_rows_right_42
    by (simp add: frame_rules eval_nat_numeral rowYsB_5 cong: let_weak_cong prod.case_cong_weak)
qed

lemma five_rows_right_70:
  "runB (always 0) (setRowsB 5 0 (initB 0)) (LaunchB # framesB 0 33 70) =
     oneBall 5 0 (ballAt 5 (1 / 2) (1634 / 5)
       (1321215431970314526136489532578507056223179817977241775558074108619405077568201817367
       /
       2500000000000000000000000000000000000000000000000000000000000000000000000000000000)
       (2247242121047717833517990045612040454933018478539835539310277728982940362254126799
       / 2500000000000000000000000000000000000000000000000000000000000000000000000000000) 5
       5 False 316 (1634 / 5) 1452) 12345 2310"
proof -
  have split: "LaunchB # framesB 0 33 70 = (LaunchB # framesB 0 33 56) @ framesB 1848 33 14"
    using framesB_add [of 0 33 56 14] by simp
  show ?thesis
    unfolding split runB_append five_rows_right_56
    by (simp add: frame_rules eval_nat_numeral rowYsB_5 cong: let_weak_cong prod.case_cong_weak)
qed

text \<open>The same with a generator that returns 1 at every call.\<close>

lemma five_rows_left_14:
  "runB (always 1) (setRowsB 5 0 (initB 0)) (LaunchB # framesB 0 33 14) =
     oneBall 5 0 (ballAt 5 (1 / 2) 246 (200800491400694559217938423367 /
       2500000000000000000000000000) (490835920317482479165508799 /
       2500000000000000000000000) 1 0 False 260 246 198) 12345 462"
proof -
  have split: "LaunchB # framesB 0 33 14 = [LaunchB] @ framesB 0 33 14" by simp
  show ?thesis
    unfolding split runB_append launched
    by (simp add: frame_rules eval_nat_numeral rowYsB_5 cong: let_weak_cong prod.case_cong_weak)
qed

lemma five_rows_left_28:
  "runB (always 1) (setRowsB 5 0 (initB 0)) (LaunchB # framesB 0 33 28) =
     oneBall 5 0 (ballAt 5 (1 / 2) (154281 / 700) (290685063270416896795667183135322367 /
       2500000000000000000000000000000000) (- (2694503799 / 2500000000)) 3 0 True 232 218
       825) 12345 924"
proof -
  have split: "LaunchB # framesB 0 33 28 = (LaunchB # framesB 0 33 14) @ framesB 462 33 14"
    using framesB_add [of 0 33 14 14] by simp
  show ?thesis
    unfolding split runB_append five_rows_left_14
    by (simp add: frame_rules eval_nat_numeral rowYsB_5 cong: let_weak_cong prod.case_cong_weak)
qed

lemma five_rows_left_42:
  "runB (always 1) (setRowsB 5 0 (initB 0)) (LaunchB # framesB 0 33 42) =
     oneBall 5 0 (ballAt 5 (1 / 2) 204 (201722865197422488510478123663505867 /
       1250000000000000000000000000000000) (392327247565047526692201 /
       2500000000000000000000) 4 0 False 218 204 1155) 12345 1386"
proof -
  have split: "LaunchB # framesB 0 33 42 = (LaunchB # framesB 0 33 28) @ framesB 924 33 14"
    using framesB_add [of 0 33 28 14] by simp
  show ?thesis
    unfolding split runB_append five_rows_left_28
    by (simp add: frame_rules eval_nat_numeral rowYsB_5 cong: let_weak_cong prod.case_cong_weak)
qed

lemma five_rows_left_56:
  "runB (always 1) (setRowsB 5 0 (initB 0)) (LaunchB # framesB 0 33 56) =
     oneBall 5 0 (ballAt 5 (1 / 2) (966 / 5) (574697887952469613608665325679381913955367 /
       2500000000000000000000000000000000000000) (883886509193980608794109322673924312799 /
       2500000000000000000000000000000000000) 5 0 False 204 (966 / 5) 1452) 12345 1848"
proof -
  have split: "LaunchB # framesB 0 33 56 = (LaunchB # framesB 0 33 42) @ framesB 1386 33 14"
    using framesB_add [of 0 33 42 14] by simp
  show ?thesis
    unfolding split runB_append five_rows_left_42
    by (simp add: frame_rules eval_nat_numeral rowYsB_5 cong: let_weak_cong prod.case_cong_weak)
qed

lemma five_rows_left_70:
  "runB (always 1) (setRowsB 5 0 (initB 0)) (LaunchB # framesB 0 33 70) =
     oneBall 5 0 (ballAt 5 (1 / 2) (966 / 5)
       (1321215431970314526136489532578507056223179817977241775558074108619405077568201817367
       /
       2500000000000000000000000000000000000000000000000000000000000000000000000000000000)
       (2247242121047717833517990045612040454933018478539835539310277728982940362254126799
       / 2500000000000000000000000000000000000000000000000000000000000000000000000000000) 5
       0 False 204 (966 / 5) 1452) 12345 2310"
proof -
  have split: "LaunchB # framesB 0 33 70 = (LaunchB # framesB 0 33 56) @ framesB 1848 33 14"
    using framesB_add [of 0 33 56 14] by simp
  show ?thesis
    unfolding split runB_append five_rows_left_56
    by (simp add: frame_rules eval_nat_numeral rowYsB_5 cong: let_weak_cong prod.case_cong_weak)
qed

section \<open>Variant B: the flight of a ball\<close>

lemma length_rowYsB: "length (rowYsB R) = nat R"
  by (simp add: rowYsB_def pegRowsB_def pegRows_def)

lemma nth_rowYsB:
  assumes "0 \<le> r" "r < R"
  shows "rowYsB R ! nat r = 60 + 28 * of_int r"
proof -
  have u: "[0..R - 1] ! nat r = r" using assms by (simp add: nth_upto)
  have l: "nat r < length [0..R - 1]" using assms by simp
  have n: "[0..r + 1 - 1] \<noteq> []" using assms(1) by (simp add: upto.simps)
  obtain z zs where z: "[0..r] = z # zs" using assms(1) by (cases "[0..r]") (simp_all add: upto.simps)
  show ?thesis
    using l u z
    by (simp add: rowYsB_def pegRowsB_def pegRows_def Let_def boardTopB_def topMarginB_def
        spacingB_def del: upto.simps)
qed

lemma reachedRow_rowYsB:
  "reachedRow y (rowYsB R) r = (0 \<le> r \<and> r < R \<and> y \<ge> 60 + 28 * of_int r)"
  using nth_rowYsB [of r R] by (auto simp: reachedRow_def length_rowYsB)

text \<open>Energy does not grow in flight.\<close>

lemma energy_step:
  fixes vy y dt base :: real
  assumes "vy\<^sup>2 \<le> 14400 + 2400 * (y - base)"
  shows "((vy + 1200 * dt) * (999 / 1000))\<^sup>2
           \<le> 14400 + 2400 * (y + (vy + 1200 * dt) * (999 / 1000) * dt - base)"
proof -
  define w where "w = vy + 1200 * dt"
  define b where "b = 1200 * dt"
  have vy: "vy = w - b" by (simp add: w_def b_def)
  have id: "(w - b)\<^sup>2 - (w * (999 / 1000))\<^sup>2 + 2 * b * (999 / 1000) * w
      = (b - w / 1000)\<^sup>2 + (999 / 500000) * w\<^sup>2"
    by (simp add: power2_eq_square algebra_simps)
  have "0 \<le> (b - w / 1000)\<^sup>2 + (999 / 500000) * w\<^sup>2" by simp
  then have "(w * (999 / 1000))\<^sup>2 - 2 * b * (999 / 1000) * w \<le> (w - b)\<^sup>2"
    using id by linarith
  then have "(w * (999 / 1000))\<^sup>2 \<le> vy\<^sup>2 + 2400 * (w * (999 / 1000) * dt)"
    unfolding vy by (simp add: b_def algebra_simps)
  then show ?thesis using assms unfolding w_def [symmetric] by (simp add: algebra_simps)
qed

text \<open>A ball above its next row does not reach the bottom line within one frame.\<close>

lemma no_long_jump:
  fixes v y dt Y :: real
  assumes dt: "0 \<le> dt" "dt \<le> 33 / 1000"
      and y: "y < Y" and Y: "Y \<le> 508"
      and e: "v\<^sup>2 \<le> 14400 + 2400 * (y + v * dt - (Y - 28))"
  shows "y + v * dt < 2716 / 5"
proof (rule ccontr)
  assume "\<not> y + v * dt < 2716 / 5"
  then have far: "2716 / 5 \<le> y + v * dt" by simp
  define d where "d = y + v * dt - Y"
  have d: "176 / 5 \<le> d" using far Y by (simp add: d_def)
  have vd: "d < v * dt" using y by (simp add: d_def)
  have vpos: "0 < v"
  proof (rule ccontr)
    assume "\<not> 0 < v"
    then have "v \<le> 0" by simp
    then have "v * dt \<le> 0" using dt(1) by (rule mult_nonpos_nonneg)
    then show False using vd d by simp
  qed
  have "v * dt \<le> v * (33 / 1000)" using dt(2) vpos by (intro mult_left_mono) simp_all
  then have v: "30 * d < v" using vd vpos by linarith
  have "(30 * d) * (30 * d) < v * v"
    using v d by (intro mult_strict_mono) simp_all
  then have 1: "900 * (d * d) < v\<^sup>2" by (simp add: power2_eq_square)
  have "(176 / 5) * d \<le> d * d" using d by (intro mult_right_mono) simp_all
  then have 2: "31680 * d \<le> 900 * (d * d)" by simp
  have 3: "v\<^sup>2 \<le> 81600 + 2400 * d" using e by (simp add: d_def algebra_simps)
  show False using 1 2 3 d by linarith
qed

text \<open>The vertical motion of one ball in one frame.\<close>

lemma stepBall_flight:
  fixes b :: qball and dt now :: real and R rows :: int
    and rng :: "32 word \<Rightarrow> real \<times> 32 word" and g :: "32 word" and t :: "cell list"
  assumes "flightOkB R b"
  defines "v1 \<equiv> (qvy b + 1200 * dt) * (999 / 1000)"
  defines "y1 \<equiv> qy b + (qvy b + 1200 * dt) * (999 / 1000) * dt"
  defines "hit \<equiv> qrow b < R \<and> y1 \<ge> 60 + 28 * of_int (qrow b)"
  defines "b' \<equiv> fst (stepBall rng rows dt now b g t)"
  shows "qy b' = y1 \<and> qrow b' = (if hit then qrow b + 1 else qrow b) \<and>
         qvy b' = (if hit then - 120 else v1) \<and> qdone b' = (y1 - 16 / 5 \<ge> 540) \<and>
         qrows b' = R \<and> qr b' = ballRadiusB \<and> qrowYs b' = rowYsB R"
proof -
  let ?m = "fallB dt (tweenB dt now (integrateB dt b))"
  let ?c = "fst (crossRowB rng rows now ?m g)"
  have nd: "\<not> qdone b" and rs: "qrows b = R" and r0: "0 \<le> qrow b"
    and ys: "qrowYs b = rowYsB R" and rad: "qr b = ballRadiusB"
    using assms(1) by (simp_all add: flightOkB_def)
  have m: "qy ?m = y1" "qvy ?m = v1" "qrow ?m = qrow b" "qrows ?m = R" "qr ?m = ballRadiusB"
    "qrowYs ?m = rowYsB R" "\<not> qdone ?m"
    using nd rs ys rad
    by (simp_all add: fallB_def tweenB_def integrateB_def Let_def G_def AIR_DAMPING_def
        y1_def v1_def)
  have h: "(qrow ?m < qrows ?m \<and> reachedRow (qy ?m) (qrowYs ?m) (qrow ?m)) = hit"
    unfolding m reachedRow_rowYsB hit_def using r0 by blast
  have c: "qy ?c = y1" "qrow ?c = (if hit then qrow b + 1 else qrow b)"
    "qvy ?c = (if hit then - 120 else v1)" "qrows ?c = R" "qr ?c = ballRadiusB"
    "qrowYs ?c = rowYsB R" "\<not> qdone ?c"
    using m h by (simp_all add: crossRowB_def Let_def split_beta BOUNCE_VY_def)
  have w: "qy (wallsB rows ?c) = y1"
    "qrow (wallsB rows ?c) = (if hit then qrow b + 1 else qrow b)"
    "qvy (wallsB rows ?c) = (if hit then - 120 else v1)" "qrows (wallsB rows ?c) = R"
    "qr (wallsB rows ?c) = ballRadiusB" "qrowYs (wallsB rows ?c) = rowYsB R"
    "\<not> qdone (wallsB rows ?c)"
    using c by (simp_all add: wallsB_def Let_def)
  have b': "b' = fst (landB rows (wallsB rows ?c) t)"
    using nd by (simp add: b'_def stepBall_fst)
  show ?thesis
    unfolding b' using w
    by (simp add: landB_def ballRadiusB_def boardBottomB_def heightB_def bottomMarginB_def)
qed

text \<open>
  On a board of at most 18 rows, with frames in time order, a ball in flight either
  stays in flight or lands having crossed all its rows.
\<close>

lemma stepBall_flightOk:
  assumes ok: "flightOkB R b" and R: "R \<le> 18" and dt: "0 \<le> dt" "dt \<le> 33 / 1000"
  shows "if qdone (fst (stepBall rng rows dt now b g t))
         then qrow (fst (stepBall rng rows dt now b g t)) = R \<and>
              qrows (fst (stepBall rng rows dt now b g t)) = R
         else flightOkB R (fst (stepBall rng rows dt now b g t))"
proof -
  define v1 where "v1 = (qvy b + 1200 * dt) * (999 / 1000)"
  define y1 where "y1 = qy b + (qvy b + 1200 * dt) * (999 / 1000) * dt"
  define r where "r = qrow b"
  define hit where "hit \<longleftrightarrow> r < R \<and> y1 \<ge> 60 + 28 * of_int r"
  let ?b = "fst (stepBall rng rows dt now b g t)"
  have f: "qy ?b = y1 \<and> qrow ?b = (if hit then r + 1 else r) \<and>
      qvy ?b = (if hit then - 120 else v1) \<and> qdone ?b = (y1 - 16 / 5 \<ge> 540) \<and>
      qrows ?b = R \<and> qr ?b = ballRadiusB \<and> qrowYs ?b = rowYsB R"
    using stepBall_flight [OF ok, where dt = dt and rng = rng and rows = rows and now = now
        and g = g and t = t]
    by (simp add: v1_def y1_def r_def hit_def)
  have r0: "0 \<le> r" and rR: "r \<le> R" and live: "qy b - 16 / 5 < 540"
    and e0: "(qvy b)\<^sup>2 \<le> 14400 + 2400 * (qy b - (32 + 28 * of_int r))"
    and nx: "r < R \<longrightarrow> qy b < 60 + 28 * of_int r \<or> qvy b = - 120"
    using ok
    by (simp_all add: flightOkB_def r_def ballRadiusB_def boardBottomB_def heightB_def
        bottomMarginB_def)
  have y1: "y1 = qy b + v1 * dt" by (simp add: y1_def v1_def)
  have e1: "v1\<^sup>2 \<le> 14400 + 2400 * (y1 - (32 + 28 * of_int r))"
    using energy_step [OF e0, of dt] by (simp add: v1_def y1_def)
  show ?thesis
  proof (cases "y1 - 16 / 5 \<ge> 540")
    case True
    have hitcase: "r + 1 = R" if hit: "hit"
    proof (rule ccontr)
      assume ne: "r + 1 \<noteq> R"
      have lt: "r < R" using hit unfolding hit_def by blast
      have "r \<le> 16" using ne lt R by linarith
      then have "(of_int r :: real) \<le> 16" by simp
      then have Y: "60 + 28 * (of_int r :: real) \<le> 508" by linarith
      from nx lt consider "qy b < 60 + 28 * of_int r" | "qvy b = - 120" by blast
      then have "y1 < 2716 / 5"
      proof cases
        case 1
        have "v1\<^sup>2 \<le> 14400 + 2400 * (qy b + v1 * dt - (60 + 28 * of_int r - 28))"
          using e1 unfolding y1 by (simp only: algebra_simps)
        from no_long_jump [OF dt 1 Y this] show ?thesis unfolding y1 .
      next
        case 2
        have "1200 * dt \<le> 1200 * (33 / 1000)" using dt(2) by linarith
        then have "qvy b + 1200 * dt \<le> 0" unfolding 2 by linarith
        then have "v1 \<le> 0" unfolding v1_def by (rule mult_nonpos_nonneg) simp
        then have "v1 * dt \<le> 0" using dt(1) by (rule mult_nonpos_nonneg)
        then show ?thesis using live unfolding y1 by linarith
      qed
      then show False using True by linarith
    qed
    have nohit: "r = R" if nh: "\<not> hit"
    proof (rule ccontr)
      assume "r \<noteq> R"
      then have lt: "r < R" using rR by linarith
      then have "r \<le> 17" using R by linarith
      then have "(of_int r :: real) \<le> 17" by simp
      moreover have "y1 < 60 + 28 * of_int r" using nh lt unfolding hit_def by auto
      ultimately show False using True by linarith
    qed
    have d: "qdone ?b" using f True by blast
    have "qrow ?b = R"
    proof (cases hit)
      case True
      then show ?thesis using f hitcase by simp
    next
      case False
      then show ?thesis using f nohit by simp
    qed
    then show ?thesis using f d by simp
  next
    case False
    have 1: "qrow ?b \<le> R \<and> 0 \<le> qrow ?b" using f r0 rR by (auto simp: hit_def)
    have 2: "(qvy ?b)\<^sup>2 \<le> 14400 + 2400 * (qy ?b - (32 + 28 * of_int (qrow ?b)))"
    proof (cases hit)
      case True
      then have "60 + 28 * of_int r \<le> y1" by (simp add: hit_def)
      then show ?thesis using f True by (simp add: algebra_simps)
    next
      case False
      then show ?thesis using f e1 by simp
    qed
    have 3: "qrow ?b < R \<longrightarrow> qy ?b < 60 + 28 * of_int (qrow ?b) \<or> qvy ?b = - 120"
      using f by (auto simp: hit_def)
    show ?thesis
      using f False 1 2 3
      by (simp add: flightOkB_def ballRadiusB_def boardBottomB_def heightB_def bottomMarginB_def)
  qed
qed

lemma newQBall_flightOk:
  assumes "0 \<le> R"
  shows "flightOkB R (newQBall boardCenterXB (boardTopB - spacingB * 0.8) ballRadiusB R spacingB p
           (rowYsB R))"
  using assms
  by (simp add: flightOkB_def newQBall_def boardTopB_def topMarginB_def spacingB_def
      ballRadiusB_def boardBottomB_def heightB_def bottomMarginB_def)

text \<open>
  In a run of drops and frames whose frames come in time order, on a board of at most
  18 rows, the balls on the board are in flight and a landing ball has crossed every row.
\<close>

lemma runB_flight:
  assumes R: "0 \<le> R" "R \<le> 18"
  shows "rowsB s = R \<Longrightarrow> \<forall>b\<in>set (ballsB s). flightOkB R b \<Longrightarrow>
         list_all dropOrStepB evs \<Longrightarrow> inOrderB (lastB s) (evs @ [StepB now]) \<Longrightarrow>
         \<forall>b\<in>set (landedB rng now (runB rng s evs)). qrow b = R \<and> qrows b = R"
proof (induction evs arbitrary: s)
  case Nil
  define dt where "dt = min 0.033 ((now - lastB s) / 1000)"
  have dt: "0 \<le> dt" "dt \<le> 33 / 1000" using Nil.prems(4) by (simp_all add: dt_def)
  have "\<forall>b\<in>set (fst (stepBalls rng (rowsB s) dt now (ballsB s) (rngB s) (binTalliesB s))).
      if qdone b then qrow b = R \<and> qrows b = R else flightOkB R b"
    using Nil.prems(2)
    by (rule stepBalls_all [where P = "flightOkB R", rotated]) (rule stepBall_flightOk [OF _ R(2) dt])
  then show ?case by (auto simp: runB_def landedB_def Let_def dt_def)
next
  case (Cons e evs)
  have a: "rowsB (applyB rng s e) = R \<and> (\<forall>b\<in>set (ballsB (applyB rng s e)). flightOkB R b) \<and>
      inOrderB (lastB (applyB rng s e)) (evs @ [StepB now])"
  proof (cases e)
    case LaunchB
    then show ?thesis
      using Cons.prems newQBall_flightOk [OF R(1)] by (auto simp: launchBallB_def Let_def)
  next
    case (StepB u)
    define dt where "dt = min 0.033 ((u - lastB s) / 1000)"
    have dt: "0 \<le> dt" "dt \<le> 33 / 1000" using Cons.prems(4) StepB by (simp_all add: dt_def)
    have "\<forall>b\<in>set (fst (stepBalls rng (rowsB s) dt u (ballsB s) (rngB s) (binTalliesB s))).
        if qdone b then qrow b = R \<and> qrows b = R else flightOkB R b"
      using Cons.prems(2)
      by (rule stepBalls_all [where P = "flightOkB R", rotated])
        (rule stepBall_flightOk [OF _ R(2) dt])
    then show ?thesis
      using StepB Cons.prems by (auto simp: stepB_def Let_def split_beta dt_def)
  qed (use Cons.prems(3) in simp_all)
  have r: "runB rng s (e # evs) = runB rng (applyB rng s e) evs" by (simp add: runB_def)
  show ?case unfolding r using Cons.IH [of "applyB rng s e"] a Cons.prems(3) by simp
qed

section \<open>A forced generator on a 5-row board\<close>

lemma list_all_framesB: "list_all dropOrStepB (framesB t d n)"
  by (induction n arbitrary: t) simp_all

lemma list_all_framesA: "list_all dropOrTickA (framesA t d n)"
  by (induction n arbitrary: t) simp_all

lemma inOrderB_framesB:
  "0 \<le> d \<Longrightarrow> t + d * real n \<le> u \<Longrightarrow> inOrderB t (framesB t d n @ [StepB u])"
proof (induction n arbitrary: t)
  case 0
  then show ?case by simp
next
  case (Suc n)
  have "t + d + d * real n \<le> u" using Suc.prems(2) by (simp add: algebra_simps)
  then show ?case using Suc.IH [of "t + d"] Suc.prems(1) by simp
qed

lemma map_singleton: "length xs = 1 \<Longrightarrow> \<forall>x\<in>set xs. f x = v \<Longrightarrow> map f xs = [v]"
  by (cases xs) simp_all

text \<open>Runs of drops and frames keep the configuration; an invariant of the balls that
  holds for a new ball and is kept by a frame holds throughout.\<close>

lemma runB_drops_and_frames:
  assumes step: "\<And>b g t dt now. P b \<Longrightarrow> P (fst (stepBall rng R dt now b g t))"
      and new: "\<And>x0 y0 r sp ys. P (newQBall x0 y0 r R sp (pRightB \<beta>) ys)"
  shows "rowsB s = R \<Longrightarrow> biasB s = \<beta> \<Longrightarrow> \<forall>b\<in>set (ballsB s). P b \<Longrightarrow>
         list_all dropOrStepB evs \<Longrightarrow>
         (\<forall>b\<in>set (ballsB (runB rng s evs)). P b) \<and>
         (\<forall>b\<in>set (landedB rng now (runB rng s evs)). P b) \<and>
         rowsB (runB rng s evs) = R \<and> biasB (runB rng s evs) = \<beta>"
proof (induction evs arbitrary: s)
  case Nil
  have "\<forall>b\<in>set (fst (stepBalls rng (rowsB s) (min 0.033 ((now - lastB s) / 1000)) now
      (ballsB s) (rngB s) (binTalliesB s))). P b"
    unfolding Nil.prems(1) by (rule stepBalls_all [where P = P and Q = P]) (simp_all add: step Nil.prems(3))
  then show ?case using Nil.prems by (simp add: runB_def landedB_def Let_def)
next
  case (Cons e evs)
  have a: "rowsB (applyB rng s e) = R \<and> biasB (applyB rng s e) = \<beta> \<and>
      (\<forall>b\<in>set (ballsB (applyB rng s e)). P b)"
  proof (cases e)
    case LaunchB
    then show ?thesis using Cons.prems new by (auto simp: launchBallB_def Let_def)
  next
    case (StepB t)
    have "\<forall>b\<in>set (fst (stepBalls rng (rowsB s) (min 0.033 ((t - lastB s) / 1000)) t
        (ballsB s) (rngB s) (binTalliesB s))). P b"
      unfolding Cons.prems(1) by (rule stepBalls_all [where P = P and Q = P]) (simp_all add: step Cons.prems(3))
    then show ?thesis using StepB Cons.prems by (simp add: stepB_def Let_def split_beta)
  qed (use Cons.prems(4) in simp_all)
  have r: "runB rng s (e # evs) = runB rng (applyB rng s e) evs" by (simp add: runB_def)
  show ?case unfolding r using Cons.IH [of "applyB rng s e"] a Cons.prems(4) by simp
qed

lemma runA_drops_and_frames:
  assumes step: "\<And>b heap cx now clk. P b \<Longrightarrow> P (fst (advanceBall rng cx now clk b heap))"
      and new: "\<And>x0 y0 sp ms addr clk. P (newBall x0 y0 0 R sp ms \<beta> addr clk)"
  shows "rowsA s = R \<Longrightarrow> biasA s = \<beta> \<Longrightarrow> \<forall>b\<in>set (ballsA s). P b \<Longrightarrow>
         list_all dropOrTickA evs \<Longrightarrow>
         (\<forall>b\<in>set (ballsA (runA rng s evs)). P b) \<and>
         (\<forall>b\<in>set (landedA rng now clk (runA rng s evs)). P b \<and> b_done b) \<and>
         rowsA (runA rng s evs) = R \<and> biasA (runA rng s evs) = \<beta>"
proof (induction evs arbitrary: s)
  case Nil
  have "\<forall>b\<in>set (fst (advanceBalls rng (widthA (scaleA s) / 2) now clk 0 (ballsA s) (heapA s))). P b"
    by (rule advanceBalls_all [where P = P and Q = P]) (simp_all add: step Nil.prems(3))
  then show ?case using Nil.prems by (simp add: runA_def landedA_def)
next
  case (Cons e evs)
  have a: "rowsA (applyA rng s e) = R \<and> biasA (applyA rng s e) = \<beta> \<and>
      (\<forall>b\<in>set (ballsA (applyA rng s e)). P b)"
  proof (cases e)
    case (LaunchA c)
    then show ?thesis using Cons.prems new by (auto simp: launchBallA_def Let_def)
  next
    case (TickA t c)
    have "\<forall>b\<in>set (fst (advanceBalls rng (widthA (scaleA s) / 2) t c 0 (ballsA s) (heapA s))). P b"
      by (rule advanceBalls_all [where P = P and Q = P]) (simp_all add: step Cons.prems(3))
    then show ?thesis
      using TickA Cons.prems collect_subset by (fastforce simp: tickA_def Let_def split_beta)
  qed (use Cons.prems(4) in simp_all)
  have r: "runA rng s (e # evs) = runA rng (applyA rng s e) evs" by (simp add: runA_def)
  show ?case unfolding r using Cons.IH [of "applyA rng s e"] a Cons.prems(4) by simp
qed

text \<open>With a bias from the slider the probability of a right deflection lies strictly
  between the two forced values.\<close>

lemma pRight_between:
  assumes "- 0.25 \<le> bias" "bias \<le> (0.25 :: real)"
  shows "0 < clamp (0.5 + bias) 0 1 \<and> clamp (0.5 + bias) 0 1 \<le> 1"
  using assms by (auto simp: clamp_def)

lemma stepBall_counters:
  "qrights (fst (stepBall rng rows dt now b g t)) =
     qrights b + (if qrow (fst (stepBall rng rows dt now b g t)) = qrow b then 0
                  else if fst (rng g) < qpRight b then 1 else 0) \<and>
   (qrow (fst (stepBall rng rows dt now b g t)) = qrow b \<or>
    qrow (fst (stepBall rng rows dt now b g t)) = qrow b + 1)"
  using crossRowB_counters [of rng rows now "fallB dt (tweenB dt now (integrateB dt b))" g]
  by (auto simp: stepBall_fst split: if_splits)

lemma stepBall_allRight:
  assumes "allRightB b"
  shows "allRightB (fst (stepBall (always 0) R dt now b g t))"
  using assms stepBall_counters [of "always 0" R dt now b g t]
    stepBall_okB [of 5 b "always 0" R dt now g t]
  by (auto simp: allRightB_def always_def)

lemma stepBall_allLeft:
  assumes "allLeftB b"
  shows "allLeftB (fst (stepBall (always 1) R dt now b g t))"
  using assms stepBall_counters [of "always 1" R dt now b g t]
    stepBall_okB [of 5 b "always 1" R dt now g t]
  by (auto simp: allLeftB_def always_def)

lemma advanceBall_counters:
  "b_rows (fst (advanceBall rng cx now clk b heap)) = b_rows b \<and>
   b_bias (fst (advanceBall rng cx now clk b heap)) = b_bias b \<and>
   (b_row (fst (advanceBall rng cx now clk b heap)) = b_row b \<and>
    b_col (fst (advanceBall rng cx now clk b heap)) = b_col b \<or>
    b_row (fst (advanceBall rng cx now clk b heap)) = b_row b + 1 \<and>
    b_col (fst (advanceBall rng cx now clk b heap)) =
      b_col b + (if fst (rng (heap (b_rng b))) < clamp (0.5 + b_bias b) 0 1 then 1 else - 1))"
  using planNextTarget_counters [of rng cx clk b heap]
    update_counters [of now "fst (planNextTarget rng cx clk b heap)"] update_counters [of now b]
  by (auto simp: advanceBall_fst split: if_splits)

lemma advanceBall_allRight:
  assumes "allRightA a"
  shows "allRightA (fst (advanceBall (always 0) cx now clk a heap))"
  using assms advanceBall_counters [of "always 0" cx now clk a heap]
    advanceBall_ok [of a "always 0" cx now clk heap] pRight_between [of "b_bias a"]
  by (auto simp: allRightA_def always_def)

lemma advanceBall_allLeft:
  assumes "allLeftA a"
  shows "allLeftA (fst (advanceBall (always 1) cx now clk a heap))"
  using assms advanceBall_counters [of "always 1" cx now clk a heap]
    advanceBall_ok [of a "always 1" cx now clk heap] pRight_between [of "b_bias a"]
  by (auto simp: allLeftA_def always_def)

lemma landed_allRightA:
  assumes "allRightA a" "b_done a"
  shows "b_row a = 5 \<and> b_col a = 5 \<and> binIndexA 5 a = 5"
proof -
  have r: "b_row a = 5" using assms by (simp add: allRightA_def countersOkA_def)
  have "binIndexA 5 a = rightCountA a"
    using assms by (intro binIndexA_rights) (simp_all add: allRightA_def)
  then show ?thesis using assms r by (simp add: allRightA_def rightCountA_def)
qed

lemma landed_allLeftA:
  assumes "allLeftA a" "b_done a"
  shows "b_row a = 5 \<and> b_col a = - 5 \<and> binIndexA 5 a = 0"
proof -
  have r: "b_row a = 5" using assms by (simp add: allLeftA_def countersOkA_def)
  have "binIndexA 5 a = rightCountA a"
    using assms by (intro binIndexA_rights) (simp_all add: allLeftA_def)
  then show ?thesis using assms r by (simp add: allLeftA_def rightCountA_def)
qed

text \<open>
  Claim C8. On a board of 5 rows with a bias from the slider, in any run of drops and
  frames from an empty board (the frames of variant B in time order): with the generator
  forced to 0, a ball lands after 5 right deflections, in bin 5 (variant B: \<^verbatim>\<open>row = 5\<close>,
  \<^verbatim>\<open>rights = 5\<close>; variant A: \<^verbatim>\<open>row = 5\<close>, \<^verbatim>\<open>col = 5\<close>); with the generator forced to 1,
  a ball lands after 5 left deflections, in bin 0 (variant B: \<^verbatim>\<open>row = 5\<close>,
  \<^verbatim>\<open>rights = 0\<close>; variant A: \<^verbatim>\<open>row = 5\<close>, \<^verbatim>\<open>col = -5\<close>).
\<close>

theorem forced_generator:
  assumes "rowsB s = 5" and "ballsB s = []" and "- 0.25 \<le> biasB s" and "biasB s \<le> 0.25"
      and "list_all dropOrStepB evs" and "inOrderB (lastB s) (evs @ [StepB now])"
      and "rowsA sa = 5" and "ballsA sa = []" and "- 0.25 \<le> biasA sa" and "biasA sa \<le> 0.25"
      and "list_all dropOrTickA evsA"
  shows "(\<forall>b\<in>set (landedB (always 0) now (runB (always 0) s evs)).
            qrow b = 5 \<and> qrights b = 5 \<and> binIndexB 5 b = 5) \<and>
         (\<forall>b\<in>set (landedB (always 1) now (runB (always 1) s evs)).
            qrow b = 5 \<and> qrights b = 0 \<and> binIndexB 5 b = 0) \<and>
         (\<forall>a\<in>set (landedA (always 0) nowA clk (runA (always 0) sa evsA)).
            b_row a = 5 \<and> b_col a = 5 \<and> binIndexA 5 a = 5) \<and>
         (\<forall>a\<in>set (landedA (always 1) nowA clk (runA (always 1) sa evsA)).
            b_row a = 5 \<and> b_col a = - 5 \<and> binIndexA 5 a = 0)"
proof -
  note p = pRight_between [OF assms(3,4)]
  have nr: "\<And>x0 y0 r sp ys. allRightB (newQBall x0 y0 r 5 sp (pRightB (biasB s)) ys)"
    using p by (simp add: allRightB_def okB_def countersOkB_def newQBall_def pRightB_def)
  have nl: "\<And>x0 y0 r sp ys. allLeftB (newQBall x0 y0 r 5 sp (pRightB (biasB s)) ys)"
    using p by (simp add: allLeftB_def okB_def countersOkB_def newQBall_def pRightB_def)
  have e: "\<forall>b\<in>set (ballsB s). allRightB b" "\<forall>b\<in>set (ballsB s). allLeftB b"
    using assms(2) by simp_all
  have b0: "\<forall>b\<in>set (landedB (always 0) now (runB (always 0) s evs)). allRightB b"
    using runB_drops_and_frames [where P = allRightB and rng = "always 0" and R = 5
        and \<beta> = "biasB s", OF stepBall_allRight nr assms(1) refl e(1) assms(5)] by simp
  have b1: "\<forall>b\<in>set (landedB (always 1) now (runB (always 1) s evs)). allLeftB b"
    using runB_drops_and_frames [where P = allLeftB and rng = "always 1" and R = 5
        and \<beta> = "biasB s", OF stepBall_allLeft nl assms(1) refl e(2) assms(5)] by simp
  have ar: "\<And>x0 y0 sp ms addr clk. allRightA (newBall x0 y0 0 5 sp ms (biasA sa) addr clk)"
    using assms(9,10) newBall_ok [of 5] by (simp add: allRightA_def) (simp add: newBall_def)
  have al: "\<And>x0 y0 sp ms addr clk. allLeftA (newBall x0 y0 0 5 sp ms (biasA sa) addr clk)"
    using assms(9,10) newBall_ok [of 5] by (simp add: allLeftA_def) (simp add: newBall_def)
  have ea: "\<forall>b\<in>set (ballsA sa). allRightA b" "\<forall>b\<in>set (ballsA sa). allLeftA b"
    using assms(8) by simp_all
  have a0: "\<forall>a\<in>set (landedA (always 0) nowA clk (runA (always 0) sa evsA)). allRightA a \<and> b_done a"
    using runA_drops_and_frames [where P = allRightA and rng = "always 0" and R = 5
        and now = nowA
        and \<beta> = "biasA sa", OF advanceBall_allRight ar assms(7) refl ea(1) assms(11)] by simp
  have a1: "\<forall>a\<in>set (landedA (always 1) nowA clk (runA (always 1) sa evsA)). allLeftA a \<and> b_done a"
    using runA_drops_and_frames [where P = allLeftA and rng = "always 1" and R = 5
        and now = nowA
        and \<beta> = "biasA sa", OF advanceBall_allLeft al assms(7) refl ea(2) assms(11)] by simp
  have e5: "\<forall>b\<in>set (ballsB s). flightOkB 5 b" using assms(2) by simp
  have f0: "\<forall>b\<in>set (landedB (always 0) now (runB (always 0) s evs)). qrow b = 5 \<and> qrows b = 5"
    by (rule runB_flight [OF _ _ assms(1) e5 assms(5,6)]) simp_all
  have f1: "\<forall>b\<in>set (landedB (always 1) now (runB (always 1) s evs)). qrow b = 5 \<and> qrows b = 5"
    by (rule runB_flight [OF _ _ assms(1) e5 assms(5,6)]) simp_all
  have B0: "\<forall>b\<in>set (landedB (always 0) now (runB (always 0) s evs)).
            qrow b = 5 \<and> qrights b = 5 \<and> binIndexB 5 b = 5"
    using b0 f0 binIndexB_rights [of 5] by (auto simp: allRightB_def)
  have B1: "\<forall>b\<in>set (landedB (always 1) now (runB (always 1) s evs)).
            qrow b = 5 \<and> qrights b = 0 \<and> binIndexB 5 b = 0"
    using b1 f1 binIndexB_rights [of 5] by (auto simp: allLeftB_def)
  show ?thesis using B0 B1 a0 a1 landed_allRightA landed_allLeftA by blast
qed

theorem forced_generator_witness:
  "map (\<lambda>b. (qrow b, qrights b, binIndexB 5 b))
     (landedB (always 0) 2343
        (runB (always 0) (setRowsB 5 0 (initB 0)) (LaunchB # framesB 0 33 70))) = [(5, 5, 5)] \<and>
   map (\<lambda>b. (qrow b, qrights b, binIndexB 5 b))
     (landedB (always 1) 2343
        (runB (always 1) (setRowsB 5 0 (initB 0)) (LaunchB # framesB 0 33 70))) = [(5, 0, 0)] \<and>
   map (\<lambda>a. (b_row a, b_col a, binIndexA 5 a))
     (landedA (always 0) 840 (\<lambda>_. 840)
        (runA (always 0) (setRowsA 5 initA) (LaunchA 0 # framesA 0 140 5))) = [(5, 5, 5)] \<and>
   map (\<lambda>a. (b_row a, b_col a, binIndexA 5 a))
     (landedA (always 1) 840 (\<lambda>_. 840)
        (runA (always 1) (setRowsA 5 initA) (LaunchA 0 # framesA 0 140 5))) = [(5, - 5, 0)]"
proof -
  let ?s = "setRowsB 5 0 (initB 0)" and ?evs = "LaunchB # framesB 0 33 70"
  let ?sa = "setRowsA 5 initA" and ?evsA = "LaunchA 0 # framesA 0 140 5"
  have h: "rowsB ?s = 5" "ballsB ?s = []" "- 0.25 \<le> biasB ?s" "biasB ?s \<le> 0.25"
    "list_all dropOrStepB ?evs" "inOrderB (lastB ?s) (?evs @ [StepB 2343])"
    "rowsA ?sa = 5" "ballsA ?sa = []" "- 0.25 \<le> biasA ?sa" "biasA ?sa \<le> 0.25"
    "list_all dropOrTickA ?evsA"
    using inOrderB_framesB [of 33 0 70 2343]
    by (simp_all add: setRowsB_def initB_def setRowsA_def initA_def list_all_framesB
        list_all_framesA)
  note tb = forced_generator [OF h, where nowA = 840 and clk = "\<lambda>_. 840"]
  note ta = tb
  let ?R = "landedB (always 0) 2343 (runB (always 0) ?s ?evs)"
  let ?L = "landedB (always 1) 2343 (runB (always 1) ?s ?evs)"
  have r: "length ?R = 1 \<and> (\<forall>b\<in>set ?R. qrow b = 5)"
    unfolding five_rows_right_70
    by (simp add: landedB_def frame_rules rowYsB_5 cong: let_weak_cong prod.case_cong_weak)
  have l: "length ?L = 1 \<and> (\<forall>b\<in>set ?L. qrow b = 5)"
    unfolding five_rows_left_70
    by (simp add: landedB_def frame_rules rowYsB_5 cong: let_weak_cong prod.case_cong_weak)
  have ra: "length (landedA (always 0) 840 (\<lambda>_. 840) (runA (always 0) ?sa ?evsA)) = 1"
    by (simp add: A_defs Let_def eval_nat_numeral)
  have la: "length (landedA (always 1) 840 (\<lambda>_. 840) (runA (always 1) ?sa ?evsA)) = 1"
    by (simp add: A_defs Let_def eval_nat_numeral)
  have 1: "map (\<lambda>b. (qrow b, qrights b, binIndexB 5 b)) ?R = [(5, 5, 5)]"
    using r tb by (intro map_singleton) auto
  have 2: "map (\<lambda>b. (qrow b, qrights b, binIndexB 5 b)) ?L = [(5, 0, 0)]"
    using l tb by (intro map_singleton) auto
  have 3: "map (\<lambda>a. (b_row a, b_col a, binIndexA 5 a))
      (landedA (always 0) 840 (\<lambda>_. 840) (runA (always 0) ?sa ?evsA)) = [(5, 5, 5)]"
    using ra ta by (intro map_singleton) auto
  have 4: "map (\<lambda>a. (b_row a, b_col a, binIndexA 5 a))
      (landedA (always 1) 840 (\<lambda>_. 840) (runA (always 1) ?sa ?evsA)) = [(5, - 5, 0)]"
    using la ta by (intro map_singleton) auto
  show ?thesis using 1 2 3 4 by simp
qed

end
